theory Spec2Isabelle
  imports Complex_Main
begin

section \<open>JavaScript strings and arrays\<close>

text \<open>
  A JavaScript string is modelled as a \<^typ>\<open>string\<close>, a list of characters, each
  character standing for one UTF-16 code unit below 256 (the code points of Latin-1):
  \<^term>\<open>CHR 0xA0\<close> is the no-break space U+00A0, and \<open>length\<close> is the \<open>.length\<close> of the
  text. The model covers the texts made of these code units.

  \<open>String.prototype.trim\<close> removes white space and line terminators from both ends.
  Among the code units below 256 these are TAB, LF, VT, FF, CR (9 to 13), the space (32)
  and the no-break space (160); the other ones (U+1680, U+2000 to U+200A, U+2028,
  U+2029, U+202F, U+205F, U+3000, U+FEFF) lie above 255.
\<close>

definition isWhiteSpace :: "char \<Rightarrow> bool" where
  "isWhiteSpace c =
     (let n = (of_char c :: nat) in (9 \<le> n \<and> n \<le> 13) \<or> n = 32 \<or> n = 160)"

definition trim :: "string \<Rightarrow> string" where
  "trim s = rev (dropWhile isWhiteSpace (rev (dropWhile isWhiteSpace s)))"

text \<open>\<open>s.split(sep)\<close> for a separator of one character: the pieces between the
  occurrences of \<open>sep\<close>, empty pieces included; \<open>"".split(sep)\<close> is \<open>[""]\<close>.\<close>

fun split :: "char \<Rightarrow> string \<Rightarrow> string list" where
  "split sep [] = [[]]"
| "split sep (c # cs) =
     (if c = sep then [] # split sep cs
      else (case split sep cs of
              [] \<Rightarrow> [[c]]
            | w # ws \<Rightarrow> (c # w) # ws))"

text \<open>\<open>words.join(sep)\<close>.\<close>

fun join :: "string \<Rightarrow> string list \<Rightarrow> string" where
  "join sep [] = []"
| "join sep [w] = w"
| "join sep (w # ws) = w @ sep @ join sep ws"

text \<open>\<open>xs.slice(-i)\<close> for \<open>i \<ge> 1\<close>: the last \<open>i\<close> elements, the whole array when it has
  fewer. \<open>xs.slice(0, i)\<close> is \<^term>\<open>take i xs\<close>.\<close>

definition slice_last :: "nat \<Rightarrow> 'a list \<Rightarrow> 'a list" where
  "slice_last i xs = drop (length xs - i) xs"

text \<open>\<open>s.toLowerCase()\<close>: below 256 the letters with a lower-case form are \<open>A\<close> to \<open>Z\<close>
  and U+00C0 to U+00DE without the multiplication sign U+00D7; the lower-case form
  lies 32 above.\<close>

definition upperLetters :: string where
  "upperLetters =
     ''ABCDEFGHIJKLMNOPQRSTUVWXYZ''
     @ [CHR 0xC0, CHR 0xC1, CHR 0xC2, CHR 0xC3, CHR 0xC4, CHR 0xC5, CHR 0xC6, CHR 0xC7,
        CHR 0xC8, CHR 0xC9, CHR 0xCA, CHR 0xCB, CHR 0xCC, CHR 0xCD, CHR 0xCE, CHR 0xCF,
        CHR 0xD0, CHR 0xD1, CHR 0xD2, CHR 0xD3, CHR 0xD4, CHR 0xD5, CHR 0xD6, CHR 0xD8,
        CHR 0xD9, CHR 0xDA, CHR 0xDB, CHR 0xDC, CHR 0xDD, CHR 0xDE]"

definition lowerLetters :: string where
  "lowerLetters =
     ''abcdefghijklmnopqrstuvwxyz''
     @ [CHR 0xE0, CHR 0xE1, CHR 0xE2, CHR 0xE3, CHR 0xE4, CHR 0xE5, CHR 0xE6, CHR 0xE7,
        CHR 0xE8, CHR 0xE9, CHR 0xEA, CHR 0xEB, CHR 0xEC, CHR 0xED, CHR 0xEE, CHR 0xEF,
        CHR 0xF0, CHR 0xF1, CHR 0xF2, CHR 0xF3, CHR 0xF4, CHR 0xF5, CHR 0xF6, CHR 0xF8,
        CHR 0xF9, CHR 0xFA, CHR 0xFB, CHR 0xFC, CHR 0xFD, CHR 0xFE]"

definition toLowerChar :: "char \<Rightarrow> char" where
  "toLowerChar c =
     (case map_of (zip upperLetters lowerLetters) c of
        None \<Rightarrow> c
      | Some l \<Rightarrow> l)"

definition toLowerCase :: "string \<Rightarrow> string" where
  "toLowerCase s = map toLowerChar s"

text \<open>The decimal numeral that a template literal writes for a non-negative integer.\<close>

definition digit_char :: "nat \<Rightarrow> char" where
  "digit_char d = ''0123456789'' ! d"

fun string_of_nat :: "nat \<Rightarrow> string" where
  "string_of_nat n =
     (if n < 10 then [digit_char n] else string_of_nat (n div 10) @ [digit_char (n mod 10)])"

section \<open>Chunk Overlap Detector\<close>

text \<open>
  \<^verbatim>\<open>findTextOverlap(text1, text2)\<close>: both texts are split at every single space; the loop
  runs \<open>i\<close> from 1 to the smaller number of pieces and keeps the longest matching window.
\<close>

definition overlapStep :: "string list \<Rightarrow> string list \<Rightarrow> nat \<Rightarrow> string \<Rightarrow> string" where
  "overlapStep words1 words2 i maxOverlap =
     (let ending = join '' '' (slice_last i words1);
          beginning = join '' '' (take i words2)
      in if ending = beginning \<and> length ending > length maxOverlap then ending
         else maxOverlap)"

definition findTextOverlap :: "string \<Rightarrow> string \<Rightarrow> string" where
  "findTextOverlap text1 text2 =
     (let words1 = split CHR '' '' text1;
          words2 = split CHR '' '' text2
      in fold (overlapStep words1 words2)
              [1 ..< Suc (min (length words1) (length words2))] [])"

text \<open>
  The detector as the specification words it, over a tokenizer \<open>tok\<close>: the window sizes
  \<open>k\<close> with \<open>1 \<le> k \<le> min (len prevWords) (len nextWords)\<close> at which the last \<open>k\<close> words
  of \<open>prev\<close> and the first \<open>k\<close> words of \<open>next\<close>, each joined by single spaces, are equal;
  the result is the joined window of the largest such \<open>k\<close>, the empty string when there
  is none.
\<close>

definition matchingWindows :: "string list \<Rightarrow> string list \<Rightarrow> nat list" where
  "matchingWindows prevWords nextWords =
     filter (\<lambda>k. join '' '' (slice_last k prevWords) = join '' '' (take k nextWords))
            [1 ..< Suc (min (length prevWords) (length nextWords))]"

definition overlap_spec :: "(string \<Rightarrow> string list) \<Rightarrow> string \<Rightarrow> string \<Rightarrow> string" where
  "overlap_spec tok prev nxt =
     (let prevWords = tok prev;
          nextWords = tok nxt;
          ks = matchingWindows prevWords nextWords
      in if ks = [] then [] else join '' '' (slice_last (Max (set ks)) prevWords))"

text \<open>Tokenizing on white space: the maximal runs of characters that are not white
  space.\<close>

fun tokensFrom :: "string \<Rightarrow> string \<Rightarrow> string list" where
  "tokensFrom cur [] = (if cur = [] then [] else [cur])"
| "tokensFrom cur (c # cs) =
     (if isWhiteSpace c then (if cur = [] then tokensFrom [] cs else cur # tokensFrom [] cs)
      else tokensFrom (cur @ [c]) cs)"

definition whitespaceTokens :: "string \<Rightarrow> string list" where
  "whitespaceTokens s = tokensFrom [] s"

section \<open>Collaborators and state\<close>

text \<open>
  The external services are collaborators whose answers the program does not control:
  each one is a function of the trace of collaborator calls made so far and of the
  arguments of the call, and returns either the error it throws (\<open>Inl\<close>) or its result.
  The program's own effects are the registry file \<^verbatim>\<open>app/collections.txt\<close> and the trace.
\<close>

datatype err = Error string

type_synonym embedding = "real list"

text \<open>A parsed document chunk: \<open>doc.text\<close> and what \<open>doc.getText()\<close> returns.\<close>

record document =
  doc_text :: string
  doc_getText :: string

record chunkMetadata =
  chunkIndex :: nat
  fileName :: string
  totalChunksInFile :: nat
  wordCount :: nat
  previousChunk :: string
  nextChunk :: string
  hasOverlap :: bool
  overlapWith :: string
  overlapLength :: nat
  source :: string

text \<open>One match of a nearest-neighbour query: the entries at one index of the parallel
  arrays \<open>results.documents[0]\<close>, \<open>results.distances[0]\<close> and \<open>results.metadatas[0]\<close>
  of a well-formed response. Distances are finite numbers.\<close>

record hit =
  hit_document :: string
  hit_distance :: real
  hit_metadata :: chunkMetadata

datatype event =
    CreateCollection string
  | LoadData string
  | CreateEmbedding string
  | CollectionAdd string "string list" "chunkMetadata list" "string list" "embedding list"
  | GetCollection string bool
  | CollectionQuery string embedding nat
  | ChatCompletion string string

datatype fsnode = RegularFile | Directory "(string \<times> fsnode) list"

record env =
  createCollection :: "event list \<Rightarrow> string \<Rightarrow> err + unit"
  loadData :: "event list \<Rightarrow> string \<Rightarrow> err + document list"
  embeddings_create :: "event list \<Rightarrow> string \<Rightarrow> err + embedding"
  collection_add :: "event list \<Rightarrow> string \<Rightarrow> string list \<Rightarrow> chunkMetadata list
                       \<Rightarrow> string list \<Rightarrow> embedding list \<Rightarrow> err + unit"
  getCollection :: "event list \<Rightarrow> string \<Rightarrow> err + unit"
  collection_query :: "event list \<Rightarrow> string \<Rightarrow> embedding \<Rightarrow> nat \<Rightarrow> err + hit list"
  chat_create :: "event list \<Rightarrow> string \<Rightarrow> string \<Rightarrow> err + string"
  date_now :: "event list \<Rightarrow> nat"
  math_random :: "event list \<Rightarrow> string"
  mkdirSync_throws :: "event list \<Rightarrow> bool"
  appendFileSync_throws :: "event list \<Rightarrow> bool"
  readFileSync_throws :: "event list \<Rightarrow> bool"
  unlinkSync_throws :: "event list \<Rightarrow> bool"
  fetch_throws :: "event list \<Rightarrow> bool"
  path_join :: "string \<Rightarrow> string \<Rightarrow> string"
  docDir :: "(string \<times> fsnode) list"
  promptHead :: string
  promptTail :: string

text \<open>
  \<open>math_random\<close> is \<open>Math.random().toString(36).substring(2, 8)\<close>; \<open>path_join\<close> is
  Node's \<open>path.join\<close>; \<open>docDir\<close> is the content of the directory \<^verbatim>\<open>./doc\<close>, which is
  taken to exist and to be readable; \<open>promptHead\<close> and \<open>promptTail\<close> are the fixed
  instruction text before and after the context block of the system prompt.
\<close>

record state =
  appDir :: bool
  collectionsFile :: "string option"
  trace :: "event list"

section \<open>Collection Registry\<close>

definition generateCollectionName :: "env \<Rightarrow> event list \<Rightarrow> string \<Rightarrow> string" where
  "generateCollectionName e tr prefix =
     (let timestamp = date_now e tr;
          random = math_random e tr
      in prefix @ ''_'' @ string_of_nat timestamp @ ''_'' @ random)"

text \<open>\<^verbatim>\<open>saveCollectionName\<close>: every error of the file system is caught and logged.\<close>

definition saveCollectionName :: "env \<Rightarrow> state \<Rightarrow> string \<Rightarrow> string \<Rightarrow> state" where
  "saveCollectionName e st collectionName src =
     (let entry = collectionName @ ''|'' @ src @ [CHR 0x0A]
      in if appDir st then
           (if appendFileSync_throws e (trace st) then st
            else st\<lparr>collectionsFile :=
                      Some (case collectionsFile st of None \<Rightarrow> entry | Some c \<Rightarrow> c @ entry)\<rparr>)
         else if mkdirSync_throws e (trace st) then st
         else if appendFileSync_throws e (trace st) then st\<lparr>appDir := True\<rparr>
         else st\<lparr>appDir := True,
                 collectionsFile :=
                   Some (case collectionsFile st of None \<Rightarrow> entry | Some c \<Rightarrow> c @ entry)\<rparr>)"

record collectionInfo =
  name :: string
  source_info :: "string option"

text \<open>\<open>const [name, source] = line.split("|")\<close>: \<open>source\<close> is \<open>undefined\<close> (\<open>None\<close>)
  when the line has no bar. \<open>split\<close> returns at least one piece.\<close>

definition parseLine :: "string \<Rightarrow> collectionInfo" where
  "parseLine line =
     (case split CHR ''|'' line of
        [] \<Rightarrow> \<lparr>name = [], source_info = None\<rparr>
      | [n] \<Rightarrow> \<lparr>name = n, source_info = None\<rparr>
      | n # s # _ \<Rightarrow> \<lparr>name = n, source_info = Some s\<rparr>)"

definition loadCollectionNames :: "env \<Rightarrow> state \<Rightarrow> collectionInfo list" where
  "loadCollectionNames e st =
     (case collectionsFile st of
        None \<Rightarrow> []
      | Some content \<Rightarrow>
          if readFileSync_throws e (trace st) then []
          else (let lines = filter (\<lambda>line. trim line \<noteq> []) (split (CHR 0x0A) (trim content))
                in map parseLine lines))"

definition clearCollectionsFile :: "env \<Rightarrow> state \<Rightarrow> state" where
  "clearCollectionsFile e st =
     (case collectionsFile st of
        None \<Rightarrow> st
      | Some content \<Rightarrow>
          if unlinkSync_throws e (trace st) then st
          else st\<lparr>collectionsFile := None\<rparr>)"

text \<open>\<^verbatim>\<open>createEmbedding\<close> logs and rethrows the collaborator's error.\<close>

definition createEmbedding :: "env \<Rightarrow> event list \<Rightarrow> string \<Rightarrow> (err + embedding) \<times> event list" where
  "createEmbedding e tr txt = (embeddings_create e tr txt, tr @ [CreateEmbedding txt])"

section \<open>Ingestion Pipeline\<close>

text \<open>\<open>path.basename(filePath)\<close>: the last segment of the path, trailing separators
  ignored.\<close>

definition basename :: "string \<Rightarrow> string" where
  "basename p =
     (let q = dropWhile (\<lambda>c. c = CHR ''/'') (rev p)
      in rev (takeWhile (\<lambda>c. c \<noteq> CHR ''/'') q))"

text \<open>\<^verbatim>\<open>fileName.replace(/\.[^/.]+$/, "")\<close>: a final dot followed by at least one
  character, none of them a dot or a slash, is removed with what follows it.\<close>

definition removeExtension :: "string \<Rightarrow> string" where
  "removeExtension s =
     (let ext = takeWhile (\<lambda>c. c \<noteq> CHR ''.'' \<and> c \<noteq> CHR ''/'') (rev s);
          rest = take (length s - length ext) s
      in if ext \<noteq> [] \<and> rest \<noteq> [] \<and> last rest = CHR ''.'' then butlast rest else s)"

text \<open>The provenance label computed at the start of \<^verbatim>\<open>processSinglePDF\<close>.\<close>

definition sourceLabel :: "string \<Rightarrow> string" where
  "sourceLabel fileName' =
     (let splitFileName = split CHR ''_'' fileName'
      in if length splitFileName > 1 then toLowerCase (hd splitFileName)
         else toLowerCase fileName')"

text \<open>\<open>doc.text || doc.getText()\<close>.\<close>

definition chunkTextOf :: "document \<Rightarrow> string" where
  "chunkTextOf doc = (if doc_text doc \<noteq> [] then doc_text doc else doc_getText doc)"

text \<open>\<open>overlapInfo\<close> of the loop body at index \<open>i\<close>: \<open>None\<close> is \<open>null\<close>, \<open>Some (withChunk,
  overlapLength)\<close> the object.\<close>

definition overlapInfoAt :: "document list \<Rightarrow> nat \<Rightarrow> string \<Rightarrow> (string \<times> nat) option" where
  "overlapInfoAt documents i chunkText =
     (if i > 0 then
        (let prevText = chunkTextOf (documents ! (i - 1))
         in if prevText \<noteq> [] then
              (let overlap = findTextOverlap prevText chunkText
               in if length overlap > 20
                  then Some (''chunk_'' @ string_of_nat (i - 1), length overlap)
                  else None)
            else None)
      else None)"

definition chunkMetadataAt ::
  "string \<Rightarrow> string \<Rightarrow> document list \<Rightarrow> nat \<Rightarrow> string \<Rightarrow> chunkMetadata" where
  "chunkMetadataAt fileName' source' documents i chunkText =
     (let overlapInfo = overlapInfoAt documents i chunkText
      in \<lparr>chunkIndex = i,
          fileName = fileName',
          totalChunksInFile = length documents,
          wordCount = length (split CHR '' '' chunkText),
          previousChunk = (if i > 0 then ''chunk_'' @ string_of_nat (i - 1) else []),
          nextChunk = (if i < length documents - 1 then ''chunk_'' @ string_of_nat (i + 1)
                       else []),
          hasOverlap = (overlapInfo \<noteq> None),
          overlapWith = (case overlapInfo of None \<Rightarrow> [] | Some (withChunk, n) \<Rightarrow> withChunk),
          overlapLength = (case overlapInfo of None \<Rightarrow> 0 | Some (withChunk, n) \<Rightarrow> n),
          source = source'\<rparr>)"

text \<open>The four parallel arrays filled by the loop.\<close>

record batch =
  ids :: "string list"
  metadatas :: "chunkMetadata list"
  docTexts :: "string list"
  embeddings :: "embedding list"

definition emptyBatch :: batch where
  "emptyBatch = \<lparr>ids = [], metadatas = [], docTexts = [], embeddings = []\<rparr>"

text \<open>
  The loop over the chunks, run on the indices \<open>[0 ..< documents.length]\<close>. A chunk whose
  text is empty after trimming is skipped; an error of \<^verbatim>\<open>createEmbedding\<close> leaves the
  loop, and the function, through its \<open>catch\<close>.
\<close>

fun processChunks ::
  "env \<Rightarrow> string \<Rightarrow> string \<Rightarrow> document list \<Rightarrow> nat list \<Rightarrow> batch \<Rightarrow> event list
     \<Rightarrow> (err + batch) \<times> event list" where
  "processChunks e fileName' source' documents [] b tr = (Inr b, tr)"
| "processChunks e fileName' source' documents (i # is) b tr =
     (let chunkText = chunkTextOf (documents ! i)
      in if chunkText = [] then processChunks e fileName' source' documents is b tr
         else if length (trim chunkText) = 0
         then processChunks e fileName' source' documents is b tr
         else (case createEmbedding e tr chunkText of
                 (Inl er, tr') \<Rightarrow> (Inl er, tr')
               | (Inr embedding, tr') \<Rightarrow>
                   processChunks e fileName' source' documents is
                     \<lparr>ids = ids b @ [''chunk_'' @ string_of_nat i],
                      metadatas = metadatas b
                        @ [chunkMetadataAt fileName' source' documents i chunkText],
                      docTexts = docTexts b @ [chunkText],
                      embeddings = embeddings b @ [embedding]\<rparr> tr'))"

text \<open>\<^verbatim>\<open>processSinglePDF\<close>: \<open>None\<close> is the \<open>null\<close> of the \<open>catch\<close> block. The collection
  is created before the file is parsed; constructing the reader does not throw.\<close>

definition processSinglePDF :: "env \<Rightarrow> state \<Rightarrow> string \<Rightarrow> string option \<times> state" where
  "processSinglePDF e st filePath =
     (let fileName' = basename filePath;
          source' = sourceLabel fileName';
          collectionName =
            generateCollectionName e (trace st) (''doc_'' @ removeExtension fileName');
          tr1 = trace st @ [CreateCollection collectionName]
      in case createCollection e (trace st) collectionName of
           Inl er \<Rightarrow> (None, st\<lparr>trace := tr1\<rparr>)
         | Inr collection \<Rightarrow>
            (let tr2 = tr1 @ [LoadData filePath]
             in case loadData e tr1 filePath of
                  Inl er \<Rightarrow> (None, st\<lparr>trace := tr2\<rparr>)
                | Inr documents \<Rightarrow>
                   (case processChunks e fileName' source' documents
                           [0 ..< length documents] emptyBatch tr2 of
                      (Inl er, tr3) \<Rightarrow> (None, st\<lparr>trace := tr3\<rparr>)
                    | (Inr b, tr3) \<Rightarrow>
                        if length (ids b) > 0 then
                          (let tr4 = tr3 @ [CollectionAdd collectionName (ids b) (metadatas b)
                                              (docTexts b) (embeddings b)]
                           in case collection_add e tr3 collectionName (ids b) (metadatas b)
                                     (docTexts b) (embeddings b) of
                                Inl er \<Rightarrow> (None, st\<lparr>trace := tr4\<rparr>)
                              | Inr u \<Rightarrow>
                                  (Some collectionName,
                                   saveCollectionName e (st\<lparr>trace := tr4\<rparr>) collectionName
                                     (''document:'' @ fileName')))
                        else (Some collectionName, st\<lparr>trace := tr3\<rparr>))))"

section \<open>Batch Ingestor\<close>

text \<open>\<open>if (collectionName)\<close> holds for a string that is not empty.\<close>

fun processAllPDFs :: "env \<Rightarrow> state \<Rightarrow> string list \<Rightarrow> string list \<Rightarrow> string list \<times> state" where
  "processAllPDFs e st [] collectionNames = (collectionNames, st)"
| "processAllPDFs e st (filePath # files) collectionNames =
     (case processSinglePDF e st filePath of
        (None, st') \<Rightarrow> processAllPDFs e st' files collectionNames
      | (Some collectionName, st') \<Rightarrow>
          if collectionName \<noteq> [] then processAllPDFs e st' files (collectionNames @ [collectionName])
          else processAllPDFs e st' files collectionNames)"

fun getAllFiles :: "(string \<Rightarrow> string \<Rightarrow> string) \<Rightarrow> string \<Rightarrow> (string \<times> fsnode) list \<Rightarrow> string list" where
  "getAllFiles pjoin dirPath [] = []"
| "getAllFiles pjoin dirPath ((file, RegularFile) # files) =
     pjoin dirPath file # getAllFiles pjoin dirPath files"
| "getAllFiles pjoin dirPath ((file, Directory entries) # files) =
     getAllFiles pjoin (pjoin dirPath file) entries @ getAllFiles pjoin dirPath files"

text \<open>\<^verbatim>\<open>initialize\<close> returns nothing: the model returns the state it leaves.\<close>

definition initialize :: "env \<Rightarrow> state \<Rightarrow> state" where
  "initialize e st =
     (let st1 = clearCollectionsFile e st;
          files = getAllFiles (path_join e) ''./doc'' (docDir e)
      in snd (processAllPDFs e st1 files []))"

section \<open>Federated Search\<close>

record searchResult =
  document :: string
  distance :: real
  metadata :: chunkMetadata
  source_result :: "string option"
  collection :: string

definition tagResult :: "collectionInfo \<Rightarrow> hit \<Rightarrow> searchResult" where
  "tagResult collectionInfo' h =
     \<lparr>document = hit_document h,
      distance = hit_distance h,
      metadata = hit_metadata h,
      source_result = source_info collectionInfo',
      collection = name collectionInfo'\<rparr>"

text \<open>
  The body of the loop over the registered collections, with its own \<open>try\<close>/\<open>catch\<close>:
  an error of the handle lookup, of the embedding or of the query skips the collection.
  It returns the results to push and the trace.
\<close>

definition searchCollection ::
  "env \<Rightarrow> string \<Rightarrow> nat \<Rightarrow> collectionInfo \<Rightarrow> event list \<Rightarrow> searchResult list \<times> event list" where
  "searchCollection e query topK collectionInfo' tr =
     (case getCollection e tr (name collectionInfo') of
        Inl er \<Rightarrow> ([], tr @ [GetCollection (name collectionInfo') False])
      | Inr coll \<Rightarrow>
         (case createEmbedding e (tr @ [GetCollection (name collectionInfo') True]) query of
            (Inl er, tr1) \<Rightarrow> ([], tr1)
          | (Inr queryEmbedding, tr1) \<Rightarrow>
             (let tr2 = tr1 @ [CollectionQuery (name collectionInfo') queryEmbedding topK]
              in case collection_query e tr1 (name collectionInfo') queryEmbedding topK of
                   Inl er \<Rightarrow> ([], tr2)
                 | Inr results \<Rightarrow>
                     if length results > 0 then (map (tagResult collectionInfo') results, tr2)
                     else ([], tr2))))"

fun searchLoop ::
  "env \<Rightarrow> string \<Rightarrow> nat \<Rightarrow> collectionInfo list \<Rightarrow> searchResult list \<Rightarrow> event list
     \<Rightarrow> searchResult list \<times> event list" where
  "searchLoop e query topK [] allResults tr = (allResults, tr)"
| "searchLoop e query topK (collectionInfo' # collections) allResults tr =
     (case searchCollection e query topK collectionInfo' tr of
        (resultsWithSource, tr') \<Rightarrow>
          searchLoop e query topK collections (allResults @ resultsWithSource) tr')"

text \<open>\<open>allResults.sort((a, b) => a.distance - b.distance)\<close>: the sort is stable, and an
  element stays before another one unless the comparator is positive.\<close>

definition compareDistance :: "searchResult \<Rightarrow> searchResult \<Rightarrow> real" where
  "compareDistance a b = distance a - distance b"

fun insertSorted :: "('a \<Rightarrow> 'a \<Rightarrow> real) \<Rightarrow> 'a \<Rightarrow> 'a list \<Rightarrow> 'a list" where
  "insertSorted cmp x [] = [x]"
| "insertSorted cmp x (y # ys) =
     (if cmp x y \<le> 0 then x # y # ys else y # insertSorted cmp x ys)"

fun sortBy :: "('a \<Rightarrow> 'a \<Rightarrow> real) \<Rightarrow> 'a list \<Rightarrow> 'a list" where
  "sortBy cmp [] = []"
| "sortBy cmp (x # xs) = insertSorted cmp x (sortBy cmp xs)"

text \<open>
  \<^verbatim>\<open>searchAllCollections\<close>. Nothing outside the loop body throws
  (\<^verbatim>\<open>loadCollectionNames\<close> catches its own errors), so the outer \<open>catch\<close> is not reached
  and the function returns its results.
\<close>

definition searchAllCollections ::
  "env \<Rightarrow> state \<Rightarrow> string \<Rightarrow> nat \<Rightarrow> searchResult list \<times> state" where
  "searchAllCollections e st query topK =
     (let collections = loadCollectionNames e st
      in case searchLoop e query topK collections [] (trace st) of
           (allResults, tr) \<Rightarrow>
             (take (topK * 2) (sortBy compareDistance allResults), st\<lparr>trace := tr\<rparr>))"

section \<open>Answer Composer\<close>

text \<open>\<open>`Source ${index + 1} (${result.source}):\n${result.document}`\<close>; an undefined
  source is written \<open>undefined\<close>.\<close>

definition sourceBlock :: "nat \<Rightarrow> searchResult \<Rightarrow> string" where
  "sourceBlock index result =
     ''Source '' @ string_of_nat (index + 1) @ '' (''
       @ (case source_result result of None \<Rightarrow> ''undefined'' | Some s \<Rightarrow> s)
       @ ''):'' @ [CHR 0x0A] @ document result"

definition contextTextOf :: "searchResult list \<Rightarrow> string" where
  "contextTextOf relevantResults =
     (if length relevantResults > 0
      then join [CHR 0x0A, CHR 0x0A]
             (map (\<lambda>(index, result). sourceBlock index result)
                  (zip [0 ..< length relevantResults] relevantResults))
      else [])"

definition generateResponse ::
  "env \<Rightarrow> event list \<Rightarrow> string \<Rightarrow> searchResult list \<Rightarrow> (err + string) \<times> event list" where
  "generateResponse e tr userQuestion relevantResults =
     (let contextText = contextTextOf relevantResults;
          systemPrompt = promptHead e @ contextText @ promptTail e
      in (chat_create e tr systemPrompt userQuestion,
          tr @ [ChatCompletion systemPrompt userQuestion]))"

definition notFoundMessage :: string where
  "notFoundMessage =
     ''I couldn'' @ [CHR 0x27] @ ''t find relevant information in the portfolio documents to answer your question.''"

definition errorMessage :: string where
  "errorMessage =
     ''I'' @ [CHR 0x27] @ ''m sorr'' @ ''y, I encountered an error while processing your question.''"

definition handleUserQuestion :: "env \<Rightarrow> state \<Rightarrow> string \<Rightarrow> string \<times> state" where
  "handleUserQuestion e st question =
     (case searchAllCollections e st question 3 of
        (searchResults, st1) \<Rightarrow>
          if length searchResults = 0 then (notFoundMessage, st1)
          else (case generateResponse e (trace st1) question searchResults of
                  (Inl er, tr) \<Rightarrow> (errorMessage, st1\<lparr>trace := tr\<rparr>)
                | (Inr response, tr) \<Rightarrow> (response, st1\<lparr>trace := tr\<rparr>)))"

section \<open>Entry points\<close>

text \<open>The \<open>question\<close> field of a request body, as a JSON value; \<open>JUndefined\<close> when the
  field is absent.\<close>

datatype jsvalue = JUndefined | JNull | JBool bool | JNum int | JStr string

fun truthy :: "jsvalue \<Rightarrow> bool" where
  "truthy JUndefined = False"
| "truthy JNull = False"
| "truthy (JBool b) = b"
| "truthy (JNum n) = (n \<noteq> 0)"
| "truthy (JStr s) = (s \<noteq> [])"

datatype body = ErrorBody string | AnswerBody string | ResponseBody string

type_synonym response = "nat \<times> body"

text \<open>The handler of \<^verbatim>\<open>POST /api/ask\<close> of the API server. \<^verbatim>\<open>handleUserQuestion\<close> does
  not throw, so the handler's \<open>catch\<close> is not reached.\<close>

definition api_ask :: "env \<Rightarrow> state \<Rightarrow> jsvalue \<Rightarrow> response \<times> state" where
  "api_ask e st question =
     (if truthy question then
        (case question of
           JStr s \<Rightarrow>
             (case handleUserQuestion e st s of
                (answer, st') \<Rightarrow> ((200, AnswerBody answer), st'))
         | _ \<Rightarrow> ((400, ErrorBody ''Question is required.''), st))
      else ((400, ErrorBody ''Question is required.''), st))"

text \<open>
  The route handler \<^verbatim>\<open>POST\<close> of the front end. \<open>requestJson\<close> is the outcome of
  \<open>request.json()\<close>: an error, or the \<open>question\<close> field of the body. The \<open>fetch\<close> of
  \<^verbatim>\<open>http://localhost:3001/api/ask\<close> reaches the handler above unless the transport
  throws. \<open>question.trim()\<close> throws on a value that is not a string.
\<close>

definition POST :: "env \<Rightarrow> state \<Rightarrow> err + jsvalue \<Rightarrow> response \<times> state" where
  "POST e st requestJson =
     (case requestJson of
        Inl er \<Rightarrow> ((500, ErrorBody ''Internal server error''), st)
      | Inr question \<Rightarrow>
          if truthy question then
            (case question of
               JStr s \<Rightarrow>
                 if trim s = [] then ((400, ErrorBody ''Question is required''), st)
                 else if fetch_throws e (trace st)
                 then ((500, ErrorBody ''Internal server error''), st)
                 else (case api_ask e st question of
                         ((status, data), st') \<Rightarrow>
                           if 200 \<le> status \<and> status \<le> 299 then
                             (let rawAnswer = (case data of AnswerBody a \<Rightarrow> a | _ \<Rightarrow> [])
                              in ((200, ResponseBody rawAnswer), st'))
                           else ((500, ErrorBody ''Internal server error''), st'))
             | _ \<Rightarrow> ((500, ErrorBody ''Internal server error''), st))
          else ((400, ErrorBody ''Question is required''), st))"

section \<open>Observations on a trace\<close>

text \<open>The texts sent to the embedding collaborator, in order, and the number of
  collection handles that were found.\<close>

fun embeddingInputs :: "event list \<Rightarrow> string list" where
  "embeddingInputs [] = []"
| "embeddingInputs (CreateEmbedding t # evs) = t # embeddingInputs evs"
| "embeddingInputs (ev # evs) = embeddingInputs evs"

fun foundCollections :: "event list \<Rightarrow> nat" where
  "foundCollections [] = 0"
| "foundCollections (GetCollection n True # evs) = Suc (foundCollections evs)"
| "foundCollections (ev # evs) = foundCollections evs"

text \<open>The events that a run appended to the trace it started from.\<close>

definition newEvents :: "event list \<Rightarrow> event list \<Rightarrow> event list" where
  "newEvents before after = drop (length before) after"

text \<open>The metadata records of the batch that the chunk loop returns.\<close>

definition storedMetadatas :: "(err + batch) \<times> event list \<Rightarrow> chunkMetadata list" where
  "storedMetadatas r = (case fst r of Inl er \<Rightarrow> [] | Inr b \<Rightarrow> metadatas b)"

section \<open>Example collaborators\<close>

text \<open>
  A run of the program against concrete collaborators: every call succeeds, the
  embedding service answers with a vector that depends on the calls made before, every
  queried collection returns one match, and the parser returns two chunks of which the
  second starts with the last five words of the first.
\<close>

definition exampleDocuments :: "document list" where
  "exampleDocuments =
     [\<lparr>doc_text = ''see alpha beta gamma delta epsilon'',
       doc_getText = ''see alpha beta gamma delta epsilon''\<rparr>,
      \<lparr>doc_text = ''alpha beta gamma delta epsilon zeta'',
       doc_getText = ''alpha beta gamma delta epsilon zeta''\<rparr>]"

text \<open>The same two chunks with an empty chunk between them.\<close>

definition gapDocuments :: "document list" where
  "gapDocuments =
     [\<lparr>doc_text = ''see alpha beta gamma delta epsilon'',
       doc_getText = ''see alpha beta gamma delta epsilon''\<rparr>,
      \<lparr>doc_text = [], doc_getText = []\<rparr>,
      \<lparr>doc_text = ''alpha beta gamma delta epsilon zeta'',
       doc_getText = ''alpha beta gamma delta epsilon zeta''\<rparr>]"

definition exampleMetadata :: chunkMetadata where
  "exampleMetadata =
     \<lparr>chunkIndex = 0, fileName = ''resume_jay.pdf'', totalChunksInFile = 1, wordCount = 2,
      previousChunk = [], nextChunk = [], hasOverlap = False, overlapWith = [],
      overlapLength = 0, source = ''resume''\<rparr>"

definition exampleEnv :: env where
  "exampleEnv =
     \<lparr>createCollection = (\<lambda>tr n. Inr ()),
      loadData = (\<lambda>tr p. Inr exampleDocuments),
      embeddings_create = (\<lambda>tr t. Inr [real (length tr)]),
      collection_add = (\<lambda>tr n i m d v. Inr ()),
      getCollection = (\<lambda>tr n. Inr ()),
      collection_query = (\<lambda>tr n v k.
         Inr [\<lparr>hit_document = ''Jay Patel'', hit_distance = 1 / 2,
               hit_metadata = exampleMetadata\<rparr>]),
      chat_create = (\<lambda>tr p q. Inr ''I am Jay.''),
      date_now = (\<lambda>tr. 1700000000000),
      math_random = (\<lambda>tr. ''k3x9ab''),
      mkdirSync_throws = (\<lambda>tr. False),
      appendFileSync_throws = (\<lambda>tr. False),
      readFileSync_throws = (\<lambda>tr. False),
      unlinkSync_throws = (\<lambda>tr. False),
      fetch_throws = (\<lambda>tr. False),
      path_join = (\<lambda>d f. d @ ''/'' @ f),
      docDir = [(''resume_jay.pdf'', RegularFile)],
      promptHead = ''Context from my portfolio materials:'',
      promptTail = ''Remember: Respond as if you ARE Jay Patel.''\<rparr>"

text \<open>The same collaborators, except that: the parser fails; the parser returns only a
  blank chunk; appending to the registry file fails; deleting the registry file
  fails.\<close>

definition parseFailureEnv :: env where
  "parseFailureEnv = exampleEnv\<lparr>loadData := (\<lambda>tr p. Inl (Error ''parse error''))\<rparr>"

definition blankChunksEnv :: env where
  "blankChunksEnv =
     exampleEnv\<lparr>loadData := (\<lambda>tr p. Inr [\<lparr>doc_text = ''  '', doc_getText = ''  ''\<rparr>])\<rparr>"

definition appendFailureEnv :: env where
  "appendFailureEnv = exampleEnv\<lparr>appendFileSync_throws := (\<lambda>tr. True)\<rparr>"

definition resetFailureEnv :: env where
  "resetFailureEnv = exampleEnv\<lparr>unlinkSync_throws := (\<lambda>tr. True)\<rparr>"

text \<open>Creating the collection fails; the batch write fails; the directory of the
  registry file cannot be created.\<close>

definition createFailureEnv :: env where
  "createFailureEnv =
     exampleEnv\<lparr>createCollection := (\<lambda>tr n. Inl (Error ''connection refused''))\<rparr>"

definition addFailureEnv :: env where
  "addFailureEnv =
     exampleEnv\<lparr>collection_add := (\<lambda>tr n i m d v. Inl (Error ''connection refused''))\<rparr>"

definition mkdirFailureEnv :: env where
  "mkdirFailureEnv = exampleEnv\<lparr>mkdirSync_throws := (\<lambda>tr. True)\<rparr>"

text \<open>The collection \<open>c1\<close> was deleted out of band: a query of it fails.\<close>

definition queryFailureEnv :: env where
  "queryFailureEnv =
     exampleEnv\<lparr>collection_query := (\<lambda>tr n v k.
        if n = ''c1'' then Inl (Error ''collection not found'')
        else Inr [\<lparr>hit_document = ''Jay Patel'', hit_distance = 1 / 2,
                   hit_metadata = exampleMetadata\<rparr>])\<rparr>"

text \<open>The embedding service refuses every call.\<close>

definition embeddingFailureEnv :: env where
  "embeddingFailureEnv =
     exampleEnv\<lparr>embeddings_create := (\<lambda>tr t. Inl (Error ''rate limit''))\<rparr>"

definition emptyState :: state where
  "emptyState = \<lparr>appDir = False, collectionsFile = None, trace = []\<rparr>"

text \<open>A registry of two collections; a registry left by an earlier ingestion.\<close>

definition twoCollections :: state where
  "twoCollections =
     \<lparr>appDir = True,
      collectionsFile = Some (''c1|document:a.pdf'' @ [CHR 0x0A] @ ''c2|document:b.pdf'' @ [CHR 0x0A]),
      trace = []\<rparr>"

definition staleState :: state where
  "staleState =
     \<lparr>appDir = True,
      collectionsFile = Some (''old|document:old.pdf'' @ [CHR 0x0A]),
      trace = []\<rparr>"

section \<open>Auxiliary predicates\<close>

text \<open>What the search leaves on the trace for \<open>n\<close> registered collections: one embedding
  call, for the query text, per handle found.\<close>

definition searchEvents :: "env \<Rightarrow> string \<Rightarrow> nat \<Rightarrow> event list \<Rightarrow> bool" where
  "searchEvents e query n new =
     (embeddingInputs new = replicate (foundCollections new) query
      \<and> foundCollections new \<le> n
      \<and> ((\<forall>tr' c. getCollection e tr' c = Inr ()) \<longrightarrow> foundCollections new = n))"

text \<open>The window of size \<open>k\<close> matches.\<close>

definition windowMatches :: "string list \<Rightarrow> string list \<Rightarrow> nat \<Rightarrow> bool" where
  "windowMatches w1 w2 k = (join '' '' (slice_last k w1) = join '' '' (take k w2))"

section \<open>The overlap detector returns the longest matching window\<close>

lemma join_append:
  "xs \<noteq> [] \<Longrightarrow> ys \<noteq> [] \<Longrightarrow> join sep (xs @ ys) = join sep xs @ sep @ join sep ys"
proof (induction sep xs rule: join.induct)
  case (1 sep)
  then show ?case by simp
next
  case (2 sep w)
  then show ?case by (cases ys) simp_all
next
  case (3 sep w v va)
  then show ?case by simp
qed

lemma slice_last_split:
  assumes "i \<le> j" "j \<le> length ws"
  shows "slice_last j ws = take (j - i) (slice_last j ws) @ slice_last i ws"
proof -
  have "drop (j - i) (drop (length ws - j) ws) = drop (length ws - i) ws"
    using assms by simp
  then show ?thesis
    unfolding slice_last_def by (metis append_take_drop_id)
qed

text \<open>A longer window of the same text joins to a strictly longer string.\<close>

lemma length_join_slice_last_mono:
  assumes "1 \<le> i" "i < j" "j \<le> length ws"
  shows "length (join '' '' (slice_last i ws)) < length (join '' '' (slice_last j ws))"
proof -
  let ?xs = "take (j - i) (slice_last j ws)"
  have len: "length (slice_last j ws) = j" "length (slice_last i ws) = i"
    using assms by (simp_all add: slice_last_def)
  have xs: "?xs \<noteq> []" using assms len by auto
  have ys: "slice_last i ws \<noteq> []" using assms len by auto
  have "slice_last j ws = ?xs @ slice_last i ws"
    using slice_last_split [of i j ws] assms by simp
  then have "join '' '' (slice_last j ws) = join '' '' ?xs @ '' '' @ join '' '' (slice_last i ws)"
    using join_append [OF xs ys] by simp
  then show ?thesis by simp
qed

lemma overlapStep_match:
  assumes "windowMatches w1 w2 i"
    and "length acc < length (join '' '' (slice_last i w1)) \<or> acc = join '' '' (slice_last i w1)"
  shows "overlapStep w1 w2 i acc = join '' '' (slice_last i w1)"
  using assms unfolding overlapStep_def windowMatches_def Let_def by auto

lemma fold_overlapStep:
  assumes "n \<le> length w1"
  shows "fold (overlapStep w1 w2) [1 ..< Suc n] [] =
     (let ks = filter (windowMatches w1 w2) [1 ..< Suc n]
      in if ks = [] then [] else join '' '' (slice_last (Max (set ks)) w1))"
  using assms
proof (induction n)
  case 0
  then show ?case by simp
next
  case (Suc n)
  let ?ks = "filter (windowMatches w1 w2) [1 ..< Suc n]"
  let ?acc = "if ?ks = [] then [] else join '' '' (slice_last (Max (set ?ks)) w1)"
  let ?e = "join '' '' (slice_last (Suc n) w1)"
  have IH: "fold (overlapStep w1 w2) [1 ..< Suc n] [] = ?acc"
    using Suc by (simp add: Let_def)
  have step: "fold (overlapStep w1 w2) [1 ..< Suc (Suc n)] [] = overlapStep w1 w2 (Suc n) ?acc"
    using IH by simp
  show ?case
  proof (cases "windowMatches w1 w2 (Suc n)")
    case False
    then have "overlapStep w1 w2 (Suc n) ?acc = ?acc"
      by (simp add: overlapStep_def windowMatches_def Let_def)
    moreover have "filter (windowMatches w1 w2) [1 ..< Suc (Suc n)] = ?ks"
      using False by simp
    ultimately show ?thesis using step by (simp add: Let_def)
  next
    case True
    have ks': "filter (windowMatches w1 w2) [1 ..< Suc (Suc n)] = ?ks @ [Suc n]"
      using True by simp
    have mx: "Max (set (?ks @ [Suc n])) = Suc n"
    proof (rule Max_eqI)
      show "finite (set (?ks @ [Suc n]))" by simp
      show "\<And>y. y \<in> set (?ks @ [Suc n]) \<Longrightarrow> y \<le> Suc n" by auto
      show "Suc n \<in> set (?ks @ [Suc n])" by simp
    qed
    have acc: "length ?acc < length ?e \<or> ?acc = ?e"
    proof (cases "?ks = []")
      case True
      then show ?thesis by (cases ?e) simp_all
    next
      case False
      define m where "m = Max (set ?ks)"
      have "set ?ks \<noteq> {}" using False by (simp only: set_empty not_False_eq_True)
      then have "m \<in> set ?ks" unfolding m_def by (rule Max_in [OF finite_set])
      then have "m \<in> set [1 ..< Suc n]" by (simp only: set_filter) blast
      then have "1 \<le> m" "m < Suc n"
        by (simp_all del: upt_Suc)
      then have "length (join '' '' (slice_last m w1)) < length ?e"
        using length_join_slice_last_mono [of m "Suc n" w1] Suc.prems by simp
      then show ?thesis using False unfolding m_def by (simp del: upt_Suc)
    qed
    have "overlapStep w1 w2 (Suc n) ?acc = ?e"
      using True acc by (rule overlapStep_match)
    then show ?thesis
      unfolding step ks' Let_def mx by (simp del: upt_Suc)
  qed
qed

text \<open>
  Claim C2, as the code has it. The words of a text are the pieces between its single
  space characters (\<open>text.split(" ")\<close>: two spaces in a row enclose an empty word, and a
  tab or a line break does not end a word). Over these words, \<^const>\<open>findTextOverlap\<close>
  returns the last \<open>k\<close> words of \<open>prev\<close> joined by single spaces for the largest \<open>k\<close>
  between 1 and the smaller word count at which that string equals the first \<open>k\<close> words
  of \<open>next\<close> joined by single spaces, and the empty string when there is no such \<open>k\<close>.
  In particular the overlap of "the quick brown fox" and "brown fox jumps" is
  "brown fox".
\<close>

theorem findTextOverlap_longest_window:
  "findTextOverlap prev nxt = overlap_spec (split CHR '' '') prev nxt
   \<and> findTextOverlap ''the quick brown fox'' ''brown fox jumps'' = ''brown fox''"
proof
  let ?w1 = "split CHR '' '' prev" and ?w2 = "split CHR '' '' nxt"
  have "min (length ?w1) (length ?w2) \<le> length ?w1" by simp
  from fold_overlapStep [OF this, of ?w2]
  show "findTextOverlap prev nxt = overlap_spec (split CHR '' '') prev nxt"
    unfolding findTextOverlap_def overlap_spec_def matchingWindows_def Let_def
    by (simp add: windowMatches_def [abs_def] Let_def)
  show "findTextOverlap ''the quick brown fox'' ''brown fox jumps'' = ''brown fox''"
    by (simp add: findTextOverlap_def overlapStep_def slice_last_def)
qed

text \<open>
  Claim C2, as stated with the words of a text being its tokens between white space,
  fails: in "intro\<newline>brown fox" a line break precedes "brown", so the last two
  words are "brown fox", the first two words of "brown fox jumps"; the code, which
  splits at spaces only, sees the words "intro\<newline>brown" and "fox" and finds no
  overlap.
\<close>

theorem findTextOverlap_whitespace_tokens:
  "findTextOverlap ''intro\<newline>brown fox'' ''brown fox jumps'' = []
   \<and> overlap_spec whitespaceTokens ''intro\<newline>brown fox'' ''brown fox jumps'' = ''brown fox''"
proof
  show "findTextOverlap ''intro\<newline>brown fox'' ''brown fox jumps'' = []"
    by (simp add: findTextOverlap_def overlapStep_def slice_last_def)
  show "overlap_spec whitespaceTokens ''intro\<newline>brown fox'' ''brown fox jumps'' = ''brown fox''"
    by (simp add: overlap_spec_def whitespaceTokens_def matchingWindows_def isWhiteSpace_def
        slice_last_def)
qed

section \<open>Federated Search returns a sorted, bounded sequence\<close>

lemma set_insertSorted: "set (insertSorted cmp x xs) = insert x (set xs)"
  by (induction xs) auto

lemma sorted_insertSorted:
  "sorted (map distance xs) \<Longrightarrow> sorted (map distance (insertSorted compareDistance x xs))"
  by (induction xs) (auto simp: set_insertSorted compareDistance_def)

lemma sorted_sortBy: "sorted (map distance (sortBy compareDistance xs))"
  by (induction xs) (simp_all add: sorted_insertSorted)

text \<open>
  Claim C7. For every query, every \<open>topK\<close>, every registry and every behaviour of the
  collaborators, the sequence that \<^const>\<open>searchAllCollections\<close> returns is sorted by
  non-decreasing distance and has at most \<open>topK * 2\<close> entries.
\<close>

theorem searchAllCollections_sorted_bounded:
  "sorted (map distance (fst (searchAllCollections e st query topK)))
   \<and> length (fst (searchAllCollections e st query topK)) \<le> topK * 2"
proof -
  obtain allResults tr
    where loop: "searchLoop e query topK (loadCollectionNames e st) [] (trace st) = (allResults, tr)"
    by (cases "searchLoop e query topK (loadCollectionNames e st) [] (trace st)")
  have res: "fst (searchAllCollections e st query topK)
      = take (topK * 2) (sortBy compareDistance allResults)"
    using loop by (simp add: searchAllCollections_def)
  have "sorted (take (topK * 2) (map distance (sortBy compareDistance allResults)))"
    using sorted_sortBy by (rule sorted_wrt_take)
  then have "sorted (map distance (take (topK * 2) (sortBy compareDistance allResults)))"
    by (simp only: take_map)
  then show ?thesis unfolding res by simp
qed

section \<open>Chunk metadata recorded by the ingestion loop\<close>

text \<open>Every record of the batch was built by the loop body at one of the indices.\<close>

lemma processChunks_metadatas:
  assumes "processChunks e fn src docs idxs b tr = (Inr b', tr')"
    and "m \<in> set (metadatas b')"
  shows "m \<in> set (metadatas b)
     \<or> (\<exists>i \<in> set idxs. m = chunkMetadataAt fn src docs i (chunkTextOf (docs ! i)))"
  using assms
proof (induction idxs arbitrary: b tr)
  case Nil
  then show ?case by simp
next
  case (Cons i idxs)
  let ?t = "chunkTextOf (docs ! i)"
  consider (empty) "?t = []" | (blank) "?t \<noteq> []" "length (trim ?t) = 0"
    | (nonblank) "?t \<noteq> []" "length (trim ?t) \<noteq> 0"
    by blast
  then show ?case
  proof cases
    case empty
    then have "processChunks e fn src docs idxs b tr = (Inr b', tr')"
      using Cons.prems(1) by (simp add: Let_def)
    from Cons.IH [OF this Cons.prems(2)] show ?thesis by auto
  next
    case blank
    then have "processChunks e fn src docs idxs b tr = (Inr b', tr')"
      using Cons.prems(1) by (simp add: Let_def del: length_0_conv)
    from Cons.IH [OF this Cons.prems(2)] show ?thesis by auto
  next
    case nonblank
    show ?thesis
    proof (cases "embeddings_create e tr ?t")
      case (Inl er)
      then show ?thesis
        using Cons.prems(1) nonblank by (simp add: Let_def createEmbedding_def del: length_0_conv)
    next
      case (Inr v)
      let ?b = "\<lparr>ids = ids b @ [''chunk_'' @ string_of_nat i],
                 metadatas = metadatas b @ [chunkMetadataAt fn src docs i ?t],
                 docTexts = docTexts b @ [?t],
                 embeddings = embeddings b @ [v]\<rparr>"
      have "processChunks e fn src docs idxs ?b (tr @ [CreateEmbedding ?t]) = (Inr b', tr')"
        using Cons.prems(1) nonblank Inr by (simp add: Let_def createEmbedding_def del: length_0_conv)
      from Cons.IH [OF this Cons.prems(2)] show ?thesis by auto
    qed
  qed
qed

lemma stored_metadata_built:
  assumes "m \<in> set (storedMetadatas
            (processChunks e fn src docs [0 ..< length docs] emptyBatch tr))"
  shows "\<exists>i < length docs. m = chunkMetadataAt fn src docs i (chunkTextOf (docs ! i))"
proof -
  obtain r tr' where run: "processChunks e fn src docs [0 ..< length docs] emptyBatch tr = (r, tr')"
    by (cases "processChunks e fn src docs [0 ..< length docs] emptyBatch tr")
  show ?thesis
  proof (cases r)
    case (Inl er)
    then show ?thesis using assms run by (simp add: storedMetadatas_def)
  next
    case (Inr b')
    then have "m \<in> set (metadatas b')" using assms run by (simp add: storedMetadatas_def)
    from processChunks_metadatas [OF run [unfolded Inr] this]
    show ?thesis by (auto simp: emptyBatch_def)
  qed
qed

lemma chunkMetadataAt_fields:
  "chunkIndex (chunkMetadataAt f s d i t) = i"
  "fileName (chunkMetadataAt f s d i t) = f"
  "source (chunkMetadataAt f s d i t) = s"
  "hasOverlap (chunkMetadataAt f s d i t) = (overlapInfoAt d i t \<noteq> None)"
  "overlapWith (chunkMetadataAt f s d i t)
     = (case overlapInfoAt d i t of None \<Rightarrow> [] | Some (withChunk, n) \<Rightarrow> withChunk)"
  "overlapLength (chunkMetadataAt f s d i t)
     = (case overlapInfoAt d i t of None \<Rightarrow> 0 | Some (withChunk, n) \<Rightarrow> n)"
  by (simp_all add: chunkMetadataAt_def Let_def)

lemma example_run:
  "storedMetadatas (processChunks exampleEnv ''a.pdf'' ''a'' exampleDocuments
         [0 ..< length exampleDocuments] emptyBatch [])
   = [chunkMetadataAt ''a.pdf'' ''a'' exampleDocuments 0 ''see alpha beta gamma delta epsilon'',
      chunkMetadataAt ''a.pdf'' ''a'' exampleDocuments 1 ''alpha beta gamma delta epsilon zeta'']"
  by (simp add: exampleEnv_def exampleDocuments_def createEmbedding_def chunkTextOf_def
      emptyBatch_def storedMetadatas_def trim_def isWhiteSpace_def Let_def)

lemma example_overlap:
  "overlapInfoAt exampleDocuments (Suc 0) ''alpha beta gamma delta epsilon zeta''
     = Some (''chunk_0'', 30)"
  by (simp add: overlapInfoAt_def exampleDocuments_def chunkTextOf_def findTextOverlap_def
      overlapStep_def slice_last_def digit_char_def Let_def)

text \<open>
  Claim C9. For the metadata \<open>m\<close> of every chunk in the batch that ingestion stores: a
  positive \<open>overlapLength\<close> implies \<open>hasOverlap\<close>, is the length of the overlap string
  that the detector found between the preceding chunk and this one, and exceeds 20;
  without \<open>hasOverlap\<close> the record has \<open>overlapWith = ""\<close> and \<open>overlapLength = 0\<close>; and a
  detected overlap of 20 characters or fewer is recorded that way.
\<close>

theorem overlap_threshold_invariant:
  assumes "m \<in> set (storedMetadatas
            (processChunks e fileName' source' documents [0 ..< length documents] emptyBatch tr))"
  shows "(0 < overlapLength m \<longrightarrow>
            hasOverlap m \<and> 20 < overlapLength m \<and> 0 < chunkIndex m
            \<and> overlapLength m
                = length (findTextOverlap (chunkTextOf (documents ! (chunkIndex m - 1)))
                                          (chunkTextOf (documents ! chunkIndex m))))
       \<and> (\<not> hasOverlap m \<longrightarrow> overlapWith m = [] \<and> overlapLength m = 0)
       \<and> (length (findTextOverlap (chunkTextOf (documents ! (chunkIndex m - 1)))
                                   (chunkTextOf (documents ! chunkIndex m))) \<le> 20
            \<longrightarrow> \<not> hasOverlap m \<and> overlapWith m = [] \<and> overlapLength m = 0)"
proof -
  obtain i where "m = chunkMetadataAt fileName' source' documents i (chunkTextOf (documents ! i))"
    using stored_metadata_built [OF assms] by blast
  then show ?thesis
    by (simp add: chunkMetadataAt_def overlapInfoAt_def Let_def)
qed

text \<open>Witness: the second chunk of the example shares 30 characters with the first.\<close>

theorem overlap_threshold_invariant_witness:
  "chunkMetadataAt ''a.pdf'' ''a'' exampleDocuments 1 ''alpha beta gamma delta epsilon zeta''
     \<in> set (storedMetadatas (processChunks exampleEnv ''a.pdf'' ''a'' exampleDocuments
               [0 ..< length exampleDocuments] emptyBatch []))
   \<and> 0 < overlapLength (chunkMetadataAt ''a.pdf'' ''a'' exampleDocuments 1
                          ''alpha beta gamma delta epsilon zeta'')
   \<and> hasOverlap (chunkMetadataAt ''a.pdf'' ''a'' exampleDocuments 1
                    ''alpha beta gamma delta epsilon zeta'')
   \<and> 20 < overlapLength (chunkMetadataAt ''a.pdf'' ''a'' exampleDocuments 1
                           ''alpha beta gamma delta epsilon zeta'')"
proof -
  let ?m = "chunkMetadataAt ''a.pdf'' ''a'' exampleDocuments 1
              ''alpha beta gamma delta epsilon zeta''"
  have h: "?m \<in> set (storedMetadatas (processChunks exampleEnv ''a.pdf'' ''a'' exampleDocuments
               [0 ..< length exampleDocuments] emptyBatch []))"
    by (simp only: example_run) simp
  have pos: "0 < overlapLength ?m"
    by (simp add: chunkMetadataAt_fields example_overlap)
  show ?thesis
    using h pos overlap_threshold_invariant [OF h] by simp
qed

text \<open>
  Claim C3, as the code has it. For every chunk in the batch that ingestion stores, the
  overlap in its metadata is computed against the raw chunk at the preceding index of
  the extraction sequence, \<open>documents[i - 1]\<close>, whether or not that chunk was stored:
  \<open>hasOverlap\<close> holds exactly when the index is positive, the text of that chunk is not
  empty, and the overlap of its text with this chunk's text is longer than 20
  characters; then \<open>overlapWith\<close> names that preceding index and \<open>overlapLength\<close> is the
  length of that overlap.
\<close>

theorem overlap_against_raw_predecessor:
  assumes "m \<in> set (storedMetadatas
            (processChunks e fileName' source' documents [0 ..< length documents] emptyBatch tr))"
  shows "chunkIndex m < length documents
       \<and> hasOverlap m
           = (0 < chunkIndex m
              \<and> chunkTextOf (documents ! (chunkIndex m - 1)) \<noteq> []
              \<and> 20 < length (findTextOverlap (chunkTextOf (documents ! (chunkIndex m - 1)))
                                             (chunkTextOf (documents ! chunkIndex m))))
       \<and> (hasOverlap m \<longrightarrow>
            overlapWith m = ''chunk_'' @ string_of_nat (chunkIndex m - 1)
            \<and> overlapLength m
                = length (findTextOverlap (chunkTextOf (documents ! (chunkIndex m - 1)))
                                          (chunkTextOf (documents ! chunkIndex m))))"
proof -
  obtain i where "i < length documents"
      "m = chunkMetadataAt fileName' source' documents i (chunkTextOf (documents ! i))"
    using stored_metadata_built [OF assms] by blast
  then show ?thesis
    by (simp add: chunkMetadataAt_def overlapInfoAt_def Let_def)
qed

theorem overlap_against_raw_predecessor_witness:
  "chunkMetadataAt ''a.pdf'' ''a'' exampleDocuments 1 ''alpha beta gamma delta epsilon zeta''
     \<in> set (storedMetadatas (processChunks exampleEnv ''a.pdf'' ''a'' exampleDocuments
               [0 ..< length exampleDocuments] emptyBatch []))
   \<and> hasOverlap (chunkMetadataAt ''a.pdf'' ''a'' exampleDocuments 1
                    ''alpha beta gamma delta epsilon zeta'')
   \<and> overlapWith (chunkMetadataAt ''a.pdf'' ''a'' exampleDocuments 1
                     ''alpha beta gamma delta epsilon zeta'') = ''chunk_0''
   \<and> overlapLength (chunkMetadataAt ''a.pdf'' ''a'' exampleDocuments 1
                       ''alpha beta gamma delta epsilon zeta'')
       = length (findTextOverlap (chunkTextOf (exampleDocuments ! 0))
                                 (chunkTextOf (exampleDocuments ! 1)))"
proof -
  let ?m = "chunkMetadataAt ''a.pdf'' ''a'' exampleDocuments 1
              ''alpha beta gamma delta epsilon zeta''"
  have h: "?m \<in> set (storedMetadatas (processChunks exampleEnv ''a.pdf'' ''a'' exampleDocuments
               [0 ..< length exampleDocuments] emptyBatch []))"
    by (simp only: example_run) simp
  have ov: "hasOverlap ?m" "chunkIndex ?m = 1" "overlapWith ?m = ''chunk_0''"
    by (simp_all add: chunkMetadataAt_fields example_overlap)
  show ?thesis
    using h ov overlap_against_raw_predecessor [OF h] by simp
qed

text \<open>
  Claim C3, as stated, fails when an empty chunk lies between two chunks that share
  text: chunks 0 and 2 are stored, chunk 1 is skipped, and the last five words of chunk
  0 (30 characters) open chunk 2. The preceding non-empty chunk of chunk 2 is chunk 0,
  yet chunk 2 is recorded without overlap, the raw chunk before it being empty.
\<close>

theorem overlap_skips_empty_predecessor:
  "map chunkIndex (storedMetadatas (processChunks exampleEnv ''a.pdf'' ''a'' gapDocuments
         [0 ..< length gapDocuments] emptyBatch [])) = [0, 2]
   \<and> map hasOverlap (storedMetadatas (processChunks exampleEnv ''a.pdf'' ''a'' gapDocuments
         [0 ..< length gapDocuments] emptyBatch [])) = [False, False]
   \<and> map overlapLength (storedMetadatas (processChunks exampleEnv ''a.pdf'' ''a'' gapDocuments
         [0 ..< length gapDocuments] emptyBatch [])) = [0, 0]
   \<and> length (findTextOverlap (chunkTextOf (gapDocuments ! 0)) (chunkTextOf (gapDocuments ! 2)))
       = 30"
proof -
  have run: "storedMetadatas (processChunks exampleEnv ''a.pdf'' ''a'' gapDocuments
         [0 ..< length gapDocuments] emptyBatch [])
     = [chunkMetadataAt ''a.pdf'' ''a'' gapDocuments 0 ''see alpha beta gamma delta epsilon'',
        chunkMetadataAt ''a.pdf'' ''a'' gapDocuments 2 ''alpha beta gamma delta epsilon zeta'']"
    by (simp add: exampleEnv_def gapDocuments_def createEmbedding_def chunkTextOf_def
        emptyBatch_def storedMetadatas_def trim_def isWhiteSpace_def Let_def numeral_2_eq_2)
  have none: "overlapInfoAt gapDocuments 0 ''see alpha beta gamma delta epsilon'' = None"
      "overlapInfoAt gapDocuments 2 ''alpha beta gamma delta epsilon zeta'' = None"
    by (simp_all add: overlapInfoAt_def gapDocuments_def chunkTextOf_def)
  have len: "length (findTextOverlap (chunkTextOf (gapDocuments ! 0))
                                     (chunkTextOf (gapDocuments ! 2))) = 30"
    by (simp add: gapDocuments_def chunkTextOf_def findTextOverlap_def overlapStep_def
        slice_last_def)
  show ?thesis
    unfolding run by (simp add: chunkMetadataAt_fields none len)
qed

section \<open>Ingestion of one file\<close>

text \<open>The three ways through the body of the chunk loop.\<close>

lemma processChunks_skip:
  "chunkTextOf (docs ! i) = [] \<or> trim (chunkTextOf (docs ! i)) = []
     \<Longrightarrow> processChunks e fn src docs (i # idxs) b tr = processChunks e fn src docs idxs b tr"
  by (auto simp: Let_def)

lemma processChunks_fail:
  "chunkTextOf (docs ! i) \<noteq> [] \<Longrightarrow> trim (chunkTextOf (docs ! i)) \<noteq> []
     \<Longrightarrow> embeddings_create e tr (chunkTextOf (docs ! i)) = Inl er
     \<Longrightarrow> processChunks e fn src docs (i # idxs) b tr
           = (Inl er, tr @ [CreateEmbedding (chunkTextOf (docs ! i))])"
  by (simp add: Let_def createEmbedding_def)

lemma processChunks_push:
  "chunkTextOf (docs ! i) \<noteq> [] \<Longrightarrow> trim (chunkTextOf (docs ! i)) \<noteq> []
     \<Longrightarrow> embeddings_create e tr (chunkTextOf (docs ! i)) = Inr v
     \<Longrightarrow> processChunks e fn src docs (i # idxs) b tr
           = processChunks e fn src docs idxs
               \<lparr>ids = ids b @ [''chunk_'' @ string_of_nat i],
                metadatas = metadatas b
                  @ [chunkMetadataAt fn src docs i (chunkTextOf (docs ! i))],
                docTexts = docTexts b @ [chunkTextOf (docs ! i)],
                embeddings = embeddings b @ [v]\<rparr>
               (tr @ [CreateEmbedding (chunkTextOf (docs ! i))])"
  by (simp add: Let_def createEmbedding_def)

text \<open>A file whose chunks are all blank leaves the batch empty and calls nothing.\<close>

lemma processChunks_blank:
  "(\<And>i. i \<in> set idxs \<Longrightarrow> trim (chunkTextOf (docs ! i)) = [])
     \<Longrightarrow> processChunks e fn src docs idxs b tr = (Inr b, tr)"
  by (induction idxs) (simp_all add: Let_def)

lemma processChunks_all_blank:
  assumes "\<forall>d \<in> set docs. trim (chunkTextOf d) = []"
  shows "processChunks e fn src docs [0 ..< length docs] b tr = (Inr b, tr)"
  using assms by (intro processChunks_blank) simp

text \<open>The chunk loop appends embedding calls only.\<close>

lemma processChunks_trace:
  "\<exists>new. snd (processChunks e fn src docs idxs b tr) = tr @ new
     \<and> (\<forall>ev \<in> set new. \<exists>t. ev = CreateEmbedding t)"
proof (induction idxs arbitrary: b tr)
  case Nil
  then show ?case by simp
next
  case (Cons i idxs)
  let ?t = "chunkTextOf (docs ! i)"
  consider (skip) "?t = [] \<or> trim ?t = []"
    | (fail) er where "?t \<noteq> []" "trim ?t \<noteq> []" "embeddings_create e tr ?t = Inl er"
    | (push) v where "?t \<noteq> []" "trim ?t \<noteq> []" "embeddings_create e tr ?t = Inr v"
    by (cases "embeddings_create e tr ?t") blast+
  then show ?case
  proof cases
    case skip
    then have "processChunks e fn src docs (i # idxs) b tr = processChunks e fn src docs idxs b tr"
      by (rule processChunks_skip)
    then show ?thesis using Cons.IH [of b tr] by simp
  next
    case fail
    then have "snd (processChunks e fn src docs (i # idxs) b tr) = tr @ [CreateEmbedding ?t]"
      by (simp add: processChunks_fail del: processChunks.simps)
    then show ?thesis by simp
  next
    case push
    let ?b = "\<lparr>ids = ids b @ [''chunk_'' @ string_of_nat i],
               metadatas = metadatas b @ [chunkMetadataAt fn src docs i ?t],
               docTexts = docTexts b @ [?t],
               embeddings = embeddings b @ [v]\<rparr>"
    obtain new where "snd (processChunks e fn src docs idxs ?b (tr @ [CreateEmbedding ?t]))
          = (tr @ [CreateEmbedding ?t]) @ new" "\<forall>ev \<in> set new. \<exists>t. ev = CreateEmbedding t"
      using Cons.IH [of ?b "tr @ [CreateEmbedding ?t]"] by blast
    then have "snd (processChunks e fn src docs (i # idxs) b tr) = tr @ (CreateEmbedding ?t # new)"
        "\<forall>ev \<in> set (CreateEmbedding ?t # new). \<exists>t. ev = CreateEmbedding t"
      using push by (simp_all add: processChunks_push del: processChunks.simps)
    then show ?thesis by blast
  qed
qed

lemma saveCollectionName_trace: "trace (saveCollectionName e st n s) = trace st"
  by (simp add: saveCollectionName_def Let_def)

lemma newEvents_append: "newEvents tr (tr @ new) = new"
  by (simp add: newEvents_def)

lemma processSinglePDF_add_event:
  assumes "CollectionAdd c i mds d v
             \<in> set (newEvents (trace st) (trace (snd (processSinglePDF e st filePath))))"
  shows "\<exists>docs tr2 b tr3.
           processChunks e (basename filePath) (sourceLabel (basename filePath)) docs
             [0 ..< length docs] emptyBatch tr2 = (Inr b, tr3)
           \<and> mds = metadatas b"
proof -
  define cn where "cn = generateCollectionName e (trace st)
                          (''doc_'' @ removeExtension (basename filePath))"
  define tr1 where "tr1 = trace st @ [CreateCollection cn]"
  define tr2 where "tr2 = tr1 @ [LoadData filePath]"
  show ?thesis
  proof (cases "createCollection e (trace st) cn")
    case (Inl er)
    then have "trace (snd (processSinglePDF e st filePath)) = trace st @ [CreateCollection cn]"
      unfolding processSinglePDF_def Let_def cn_def by simp
    then show ?thesis using assms by (simp add: newEvents_append)
  next
    case cc: (Inr u)
    show ?thesis
    proof (cases "loadData e tr1 filePath")
      case (Inl er)
      then have "trace (snd (processSinglePDF e st filePath))
                   = trace st @ [CreateCollection cn, LoadData filePath]"
        using cc unfolding processSinglePDF_def Let_def cn_def tr1_def by simp
      then show ?thesis using assms by (simp add: newEvents_append)
    next
      case ld: (Inr docs)
      let ?run = "processChunks e (basename filePath) (sourceLabel (basename filePath)) docs
                    [0 ..< length docs] emptyBatch tr2"
      obtain r tr3 where run: "?run = (r, tr3)" by (cases ?run)
      obtain new where new: "tr3 = tr2 @ new" "\<forall>ev \<in> set new. \<exists>t. ev = CreateEmbedding t"
        using processChunks_trace [of e "basename filePath" "sourceLabel (basename filePath)"
            docs "[0 ..< length docs]" emptyBatch tr2] run by auto
      have notadd: "CollectionAdd c i mds d v \<notin> set new" using new(2) by blast
      show ?thesis
      proof (cases r)
        case (Inl er)
        then have "trace (snd (processSinglePDF e st filePath)) = tr3"
          using cc ld run unfolding processSinglePDF_def Let_def cn_def tr1_def tr2_def by simp
        then have "newEvents (trace st) (trace (snd (processSinglePDF e st filePath)))
                     = [CreateCollection cn, LoadData filePath] @ new"
          using new(1) by (simp add: tr2_def tr1_def newEvents_def)
        then show ?thesis using assms notadd by simp
      next
        case b: (Inr b)
        show ?thesis
        proof (cases "ids b = []")
          case True
          then have "trace (snd (processSinglePDF e st filePath)) = tr3"
            using cc ld run b unfolding processSinglePDF_def Let_def cn_def tr1_def tr2_def by simp
          then have "newEvents (trace st) (trace (snd (processSinglePDF e st filePath)))
                       = [CreateCollection cn, LoadData filePath] @ new"
            using new(1) by (simp add: tr2_def tr1_def newEvents_def)
          then show ?thesis using assms notadd by simp
        next
          case False
          let ?add = "CollectionAdd cn (ids b) (metadatas b) (docTexts b) (embeddings b)"
          have "trace (snd (processSinglePDF e st filePath)) = tr3 @ [?add]"
            using cc ld run b False unfolding processSinglePDF_def Let_def cn_def tr1_def tr2_def
            by (simp add: saveCollectionName_trace split: sum.splits)
          then have "newEvents (trace st) (trace (snd (processSinglePDF e st filePath)))
                       = [CreateCollection cn, LoadData filePath] @ new @ [?add]"
            using new(1) by (simp add: tr2_def tr1_def newEvents_def)
          then have "mds = metadatas b" using assms notadd by simp
          then show ?thesis using run b by blast
        qed
      qed
    qed
  qed
qed

text \<open>The first piece of a split is the text before the first separator.\<close>

lemma split_not_Nil: "split c s \<noteq> []"
  by (induction s) (auto split: list.splits)

lemma hd_split: "hd (split c s) = takeWhile (\<lambda>x. x \<noteq> c) s"
  by (induction s) (auto split: list.splits simp: split_not_Nil)

lemma split_single: "length (split c s) \<le> 1 \<Longrightarrow> c \<notin> set s"
proof (induction s)
  case Nil
  then show ?case by simp
next
  case (Cons x xs)
  show ?case
  proof (cases "x = c")
    case True
    then show ?thesis using Cons.prems split_not_Nil [of c xs] by (cases "split c xs") auto
  next
    case False
    then have "length (split c (x # xs)) = length (split c xs)"
      using split_not_Nil [of c xs] by (cases "split c xs") auto
    then show ?thesis using Cons False by simp
  qed
qed

lemma sourceLabel_token:
  "sourceLabel f = toLowerCase (takeWhile (\<lambda>c. c \<noteq> CHR ''_'') f)"
proof (cases "length (split CHR ''_'' f) > 1")
  case True
  then show ?thesis by (simp add: sourceLabel_def Let_def hd_split)
next
  case False
  then have "CHR ''_'' \<notin> set f" using split_single [of "CHR ''_''" f] by simp
  then have tw: "takeWhile (\<lambda>c. c \<noteq> CHR ''_'') f = f" by (auto simp: takeWhile_eq_all_conv)
  have "sourceLabel f = toLowerCase f" using False by (simp add: sourceLabel_def Let_def)
  then show ?thesis by (simp only: tw)
qed

text \<open>The registry file only grows during ingestion.\<close>

lemma saveCollectionName_grows:
  "collectionsFile st = Some old
     \<Longrightarrow> \<exists>new. collectionsFile (saveCollectionName e st n s) = Some (old @ new)"
  by (simp add: saveCollectionName_def Let_def)

lemma processSinglePDF_grows:
  assumes "collectionsFile st = Some old"
  shows "\<exists>new. collectionsFile (snd (processSinglePDF e st filePath)) = Some (old @ new)"
proof -
  have "collectionsFile (snd (processSinglePDF e st filePath)) = collectionsFile st
      \<or> collectionsFile (snd (processSinglePDF e st filePath))
          = Some ((case collectionsFile st of None \<Rightarrow> [] | Some content \<Rightarrow> content)
                  @ generateCollectionName e (trace st)
                      (''doc_'' @ removeExtension (basename filePath))
                  @ ''|'' @ ''document:'' @ basename filePath @ [CHR 0x0A])"
    unfolding processSinglePDF_def Let_def
    by (simp add: saveCollectionName_def Let_def split: sum.splits prod.splits option.splits)
  then show ?thesis using assms by auto
qed

lemma processAllPDFs_grows:
  "collectionsFile st = Some old
     \<Longrightarrow> \<exists>new. collectionsFile (snd (processAllPDFs e st files names)) = Some (old @ new)"
proof (induction files arbitrary: st names old)
  case Nil
  then show ?case by simp
next
  case (Cons filePath files)
  obtain r st' where one: "processSinglePDF e st filePath = (r, st')"
    by (cases "processSinglePDF e st filePath")
  obtain new1 where n1: "collectionsFile st' = Some (old @ new1)"
    using processSinglePDF_grows [OF Cons.prems, of e filePath] one by auto
  have "\<exists>names'. processAllPDFs e st (filePath # files) names = processAllPDFs e st' files names'"
    using one by (cases r) auto
  then obtain names' where step:
      "processAllPDFs e st (filePath # files) names = processAllPDFs e st' files names'" ..
  obtain new2 where "collectionsFile (snd (processAllPDFs e st' files names')) = Some ((old @ new1) @ new2)"
    using Cons.IH [OF n1] by blast
  then show ?case unfolding step by auto
qed

text \<open>The example file \<^verbatim>\<open>./doc/resume_jay.pdf\<close>.\<close>

lemmas ingest_eval = digit_char_def toLowerCase_def toLowerChar_def upperLetters_def
  lowerLetters_def trim_def isWhiteSpace_def
  exampleEnv_def parseFailureEnv_def blankChunksEnv_def appendFailureEnv_def resetFailureEnv_def
  createFailureEnv_def addFailureEnv_def mkdirFailureEnv_def embeddingFailureEnv_def
  emptyState_def staleState_def exampleDocuments_def
  basename_def removeExtension_def sourceLabel_def generateCollectionName_def
  createEmbedding_def chunkTextOf_def emptyBatch_def saveCollectionName_def Let_def

lemma example_names:
  "generateCollectionName parseFailureEnv (trace emptyState)
       (''doc_'' @ removeExtension (basename ''./doc/resume_jay.pdf''))
     = ''doc_resume_jay_1700000000000_k3x9ab''"
  "generateCollectionName blankChunksEnv (trace emptyState)
       (''doc_'' @ removeExtension (basename ''./doc/resume_jay.pdf''))
     = ''doc_resume_jay_1700000000000_k3x9ab''"
  "generateCollectionName appendFailureEnv (trace emptyState)
       (''doc_'' @ removeExtension (basename ''./doc/resume_jay.pdf''))
     = ''doc_resume_jay_1700000000000_k3x9ab''"
  "generateCollectionName exampleEnv (trace emptyState)
       (''doc_'' @ removeExtension (basename ''./doc/resume_jay.pdf''))
     = ''doc_resume_jay_1700000000000_k3x9ab''"
  by (simp_all add: ingest_eval)

lemma example_ingest:
  "processSinglePDF resetFailureEnv staleState ''./doc/resume_jay.pdf''
     = (Some ''doc_resume_jay_1700000000000_k3x9ab'',
        \<lparr>appDir = True,
         collectionsFile = Some (''old|document:old.pdf'' @ [CHR 0x0A]
             @ ''doc_resume_jay_1700000000000_k3x9ab|document:resume_jay.pdf'' @ [CHR 0x0A]),
         trace = [CreateCollection ''doc_resume_jay_1700000000000_k3x9ab'',
                  LoadData ''./doc/resume_jay.pdf'',
                  CreateEmbedding ''see alpha beta gamma delta epsilon'',
                  CreateEmbedding ''alpha beta gamma delta epsilon zeta'',
                  CollectionAdd ''doc_resume_jay_1700000000000_k3x9ab'' [''chunk_0'', ''chunk_1'']
                    [chunkMetadataAt ''resume_jay.pdf'' ''resume'' exampleDocuments 0
                       ''see alpha beta gamma delta epsilon'',
                     chunkMetadataAt ''resume_jay.pdf'' ''resume'' exampleDocuments 1
                       ''alpha beta gamma delta epsilon zeta'']
                    [''see alpha beta gamma delta epsilon'',
                     ''alpha beta gamma delta epsilon zeta'']
                    [[2], [3]]]\<rparr>)"
  by (simp add: processSinglePDF_def ingest_eval)

lemma example_names_failures:
  "generateCollectionName createFailureEnv (trace emptyState)
       (''doc_'' @ removeExtension (basename ''./doc/resume_jay.pdf''))
     = ''doc_resume_jay_1700000000000_k3x9ab''"
  "generateCollectionName embeddingFailureEnv (trace emptyState)
       (''doc_'' @ removeExtension (basename ''./doc/resume_jay.pdf''))
     = ''doc_resume_jay_1700000000000_k3x9ab''"
  "generateCollectionName addFailureEnv (trace emptyState)
       (''doc_'' @ removeExtension (basename ''./doc/resume_jay.pdf''))
     = ''doc_resume_jay_1700000000000_k3x9ab''"
  "generateCollectionName mkdirFailureEnv (trace emptyState)
       (''doc_'' @ removeExtension (basename ''./doc/resume_jay.pdf''))
     = ''doc_resume_jay_1700000000000_k3x9ab''"
  by (simp_all add: ingest_eval)

text \<open>The branches of one ingestion, with the names of its intermediate traces.\<close>

lemma processSinglePDF_branches:
  assumes "collectionName
             = generateCollectionName e (trace st) (''doc_'' @ removeExtension (basename filePath))"
    and "tr1 = trace st @ [CreateCollection collectionName]"
    and "tr2 = tr1 @ [LoadData filePath]"
  shows "processSinglePDF e st filePath =
     (case createCollection e (trace st) collectionName of
        Inl er \<Rightarrow> (None, st\<lparr>trace := tr1\<rparr>)
      | Inr u \<Rightarrow>
         (case loadData e tr1 filePath of
            Inl er \<Rightarrow> (None, st\<lparr>trace := tr2\<rparr>)
          | Inr documents \<Rightarrow>
             (case processChunks e (basename filePath) (sourceLabel (basename filePath))
                     documents [0 ..< length documents] emptyBatch tr2 of
                (Inl er, tr3) \<Rightarrow> (None, st\<lparr>trace := tr3\<rparr>)
              | (Inr b, tr3) \<Rightarrow>
                  if ids b = [] then (Some collectionName, st\<lparr>trace := tr3\<rparr>)
                  else (case collection_add e tr3 collectionName (ids b) (metadatas b)
                               (docTexts b) (embeddings b) of
                          Inl er \<Rightarrow>
                            (None, st\<lparr>trace := tr3 @ [CollectionAdd collectionName (ids b)
                                                       (metadatas b) (docTexts b) (embeddings b)]\<rparr>)
                        | Inr u2 \<Rightarrow>
                            (Some collectionName,
                             saveCollectionName e
                               (st\<lparr>trace := tr3 @ [CollectionAdd collectionName (ids b)
                                                      (metadatas b) (docTexts b) (embeddings b)]\<rparr>)
                               collectionName (''document:'' @ basename filePath))))))"
  unfolding processSinglePDF_def assms Let_def
  by (simp split: sum.splits prod.splits)

text \<open>When the embedding service refuses every call, a file with a chunk that is not
  blank leaves the chunk loop with an error.\<close>

lemma processChunks_embedding_fails:
  assumes "\<forall>tr t. isl (embeddings_create e tr t)"
    and "\<exists>i \<in> set idxs. trim (chunkTextOf (docs ! i)) \<noteq> []"
  shows "isl (fst (processChunks e fn src docs idxs b tr))"
  using assms(2)
proof (induction idxs)
  case Nil
  then show ?case by simp
next
  case (Cons i idxs)
  let ?t = "chunkTextOf (docs ! i)"
  show ?case
  proof (cases "?t = [] \<or> trim ?t = []")
    case True
    then have skip: "processChunks e fn src docs (i # idxs) b tr
                       = processChunks e fn src docs idxs b tr"
      by (rule processChunks_skip)
    have "trim ?t = []" using True by (auto simp: trim_def)
    then have "\<exists>i \<in> set idxs. trim (chunkTextOf (docs ! i)) \<noteq> []"
      using Cons.prems by auto
    then show ?thesis using Cons.IH skip by simp
  next
    case False
    have "isl (embeddings_create e tr ?t)" using assms(1) by blast
    then obtain er where "embeddings_create e tr ?t = Inl er"
      by (cases "embeddings_create e tr ?t") auto
    then have "processChunks e fn src docs (i # idxs) b tr = (Inl er, tr @ [CreateEmbedding ?t])"
      using False by (intro processChunks_fail) auto
    then show ?thesis by simp
  qed
qed

text \<open>
  Claim C5, as the code has it. \<^const>\<open>processSinglePDF\<close> returns either \<open>null\<close> or the
  generated collection id. It returns \<open>null\<close> when a collaborator call of the file
  throws: creating the collection, parsing the file, an embedding call of the chunk
  loop (as when the embedding service refuses every call and some chunk is not blank),
  or the batch write. It returns the id in every other case. So it returns the id when
  the file yields no chunk that is not blank: nothing is embedded, stored or
  registered, and the created collection stays empty. And it returns the id when the
  batch was written, also when creating the directory of the registry file or
  appending the record fails: the error is caught inside \<^const>\<open>saveCollectionName\<close>,
  and the registry is left as it was.
\<close>

theorem processSinglePDF_result:
  assumes "collectionName
             = generateCollectionName e (trace st) (''doc_'' @ removeExtension (basename filePath))"
    and "tr1 = trace st @ [CreateCollection collectionName]"
    and "tr2 = tr1 @ [LoadData filePath]"
  shows "(fst (processSinglePDF e st filePath) = None
            \<or> fst (processSinglePDF e st filePath) = Some collectionName)
       \<and> ((\<exists>er. createCollection e (trace st) collectionName = Inl er)
            \<longrightarrow> processSinglePDF e st filePath = (None, st\<lparr>trace := tr1\<rparr>))
       \<and> ((\<exists>er. loadData e tr1 filePath = Inl er)
            \<longrightarrow> fst (processSinglePDF e st filePath) = None)
       \<and> (createCollection e (trace st) collectionName = Inr ()
            \<and> (\<exists>documents er tr3.
                   loadData e tr1 filePath = Inr documents
                   \<and> processChunks e (basename filePath) (sourceLabel (basename filePath))
                         documents [0 ..< length documents] emptyBatch tr2 = (Inl er, tr3))
            \<longrightarrow> fst (processSinglePDF e st filePath) = None)
       \<and> (createCollection e (trace st) collectionName = Inr ()
            \<and> (\<exists>documents. loadData e tr1 filePath = Inr documents
                   \<and> (\<exists>d \<in> set documents. trim (chunkTextOf d) \<noteq> []))
            \<and> (\<forall>tr t. isl (embeddings_create e tr t))
            \<longrightarrow> fst (processSinglePDF e st filePath) = None)
       \<and> (createCollection e (trace st) collectionName = Inr ()
            \<and> (\<exists>documents b tr3 er.
                   loadData e tr1 filePath = Inr documents
                   \<and> processChunks e (basename filePath) (sourceLabel (basename filePath))
                         documents [0 ..< length documents] emptyBatch tr2 = (Inr b, tr3)
                   \<and> ids b \<noteq> []
                   \<and> collection_add e tr3 collectionName (ids b) (metadatas b) (docTexts b)
                         (embeddings b) = Inl er)
            \<longrightarrow> fst (processSinglePDF e st filePath) = None)
       \<and> (createCollection e (trace st) collectionName = Inr ()
            \<and> (\<exists>documents. loadData e tr1 filePath = Inr documents
                   \<and> (\<forall>d \<in> set documents. trim (chunkTextOf d) = []))
            \<longrightarrow> processSinglePDF e st filePath = (Some collectionName, st\<lparr>trace := tr2\<rparr>))
       \<and> (createCollection e (trace st) collectionName = Inr ()
            \<and> (\<exists>documents b tr3.
                   loadData e tr1 filePath = Inr documents
                   \<and> processChunks e (basename filePath) (sourceLabel (basename filePath))
                         documents [0 ..< length documents] emptyBatch tr2 = (Inr b, tr3)
                   \<and> ids b = [])
            \<longrightarrow> fst (processSinglePDF e st filePath) = Some collectionName
                \<and> collectionsFile (snd (processSinglePDF e st filePath)) = collectionsFile st)
       \<and> (createCollection e (trace st) collectionName = Inr ()
            \<and> (\<exists>documents b tr3.
                   loadData e tr1 filePath = Inr documents
                   \<and> processChunks e (basename filePath) (sourceLabel (basename filePath))
                         documents [0 ..< length documents] emptyBatch tr2 = (Inr b, tr3)
                   \<and> ids b \<noteq> []
                   \<and> collection_add e tr3 collectionName (ids b) (metadatas b) (docTexts b)
                         (embeddings b) = Inr ())
            \<longrightarrow> fst (processSinglePDF e st filePath) = Some collectionName)
       \<and> (createCollection e (trace st) collectionName = Inr ()
            \<and> (\<exists>documents b tr3.
                   loadData e tr1 filePath = Inr documents
                   \<and> processChunks e (basename filePath) (sourceLabel (basename filePath))
                         documents [0 ..< length documents] emptyBatch tr2 = (Inr b, tr3)
                   \<and> ids b \<noteq> []
                   \<and> collection_add e tr3 collectionName (ids b) (metadatas b) (docTexts b)
                         (embeddings b) = Inr ()
                   \<and> (appendFileSync_throws e
                         (tr3 @ [CollectionAdd collectionName (ids b) (metadatas b) (docTexts b)
                                    (embeddings b)])
                       \<or> (\<not> appDir st
                           \<and> mkdirSync_throws e
                               (tr3 @ [CollectionAdd collectionName (ids b) (metadatas b)
                                          (docTexts b) (embeddings b)]))))
            \<longrightarrow> fst (processSinglePDF e st filePath) = Some collectionName
                \<and> collectionsFile (snd (processSinglePDF e st filePath)) = collectionsFile st)"
proof -
  note br = processSinglePDF_branches [OF assms]
  have A: "fst (processSinglePDF e st filePath) = None
            \<or> fst (processSinglePDF e st filePath) = Some collectionName"
    unfolding br by (simp split: sum.splits prod.splits)
  have B: "(\<exists>er. createCollection e (trace st) collectionName = Inl er)
            \<longrightarrow> processSinglePDF e st filePath = (None, st\<lparr>trace := tr1\<rparr>)"
    unfolding br by auto
  have C: "(\<exists>er. loadData e tr1 filePath = Inl er)
            \<longrightarrow> fst (processSinglePDF e st filePath) = None"
    unfolding br by (auto split: sum.splits)
  have D: "createCollection e (trace st) collectionName = Inr ()
            \<and> (\<exists>documents er tr3.
                   loadData e tr1 filePath = Inr documents
                   \<and> processChunks e (basename filePath) (sourceLabel (basename filePath))
                         documents [0 ..< length documents] emptyBatch tr2 = (Inl er, tr3))
            \<longrightarrow> fst (processSinglePDF e st filePath) = None"
    unfolding br by auto
  have D': "createCollection e (trace st) collectionName = Inr ()
            \<and> (\<exists>documents. loadData e tr1 filePath = Inr documents
                   \<and> (\<exists>d \<in> set documents. trim (chunkTextOf d) \<noteq> []))
            \<and> (\<forall>tr t. isl (embeddings_create e tr t))
            \<longrightarrow> fst (processSinglePDF e st filePath) = None"
  proof
    assume h: "createCollection e (trace st) collectionName = Inr ()
            \<and> (\<exists>documents. loadData e tr1 filePath = Inr documents
                   \<and> (\<exists>d \<in> set documents. trim (chunkTextOf d) \<noteq> []))
            \<and> (\<forall>tr t. isl (embeddings_create e tr t))"
    then obtain documents d where d: "loadData e tr1 filePath = Inr documents"
        "d \<in> set documents" "trim (chunkTextOf d) \<noteq> []" by blast
    obtain i where "i < length documents" "documents ! i = d"
      using d(2) by (auto simp: in_set_conv_nth)
    then have "\<exists>i \<in> set [0 ..< length documents]. trim (chunkTextOf (documents ! i)) \<noteq> []"
      using d(3) by auto
    then have "isl (fst (processChunks e (basename filePath) (sourceLabel (basename filePath))
                         documents [0 ..< length documents] emptyBatch tr2))"
      using h by (intro processChunks_embedding_fails) auto
    then obtain er tr3 where
        "processChunks e (basename filePath) (sourceLabel (basename filePath))
                         documents [0 ..< length documents] emptyBatch tr2 = (Inl er, tr3)"
      by (cases "processChunks e (basename filePath) (sourceLabel (basename filePath))
                         documents [0 ..< length documents] emptyBatch tr2")
         (auto simp: isl_def)
    then show "fst (processSinglePDF e st filePath) = None"
      using D h d(1) by blast
  qed
  have E: "createCollection e (trace st) collectionName = Inr ()
            \<and> (\<exists>documents b tr3 er.
                   loadData e tr1 filePath = Inr documents
                   \<and> processChunks e (basename filePath) (sourceLabel (basename filePath))
                         documents [0 ..< length documents] emptyBatch tr2 = (Inr b, tr3)
                   \<and> ids b \<noteq> []
                   \<and> collection_add e tr3 collectionName (ids b) (metadatas b) (docTexts b)
                         (embeddings b) = Inl er)
            \<longrightarrow> fst (processSinglePDF e st filePath) = None"
    unfolding br by auto
  have F: "createCollection e (trace st) collectionName = Inr ()
            \<and> (\<exists>documents. loadData e tr1 filePath = Inr documents
                   \<and> (\<forall>d \<in> set documents. trim (chunkTextOf d) = []))
            \<longrightarrow> processSinglePDF e st filePath = (Some collectionName, st\<lparr>trace := tr2\<rparr>)"
  proof
    assume h: "createCollection e (trace st) collectionName = Inr ()
            \<and> (\<exists>documents. loadData e tr1 filePath = Inr documents
                   \<and> (\<forall>d \<in> set documents. trim (chunkTextOf d) = []))"
    then obtain documents where d: "loadData e tr1 filePath = Inr documents"
        "\<forall>d \<in> set documents. trim (chunkTextOf d) = []" by blast
    have "processChunks e (basename filePath) (sourceLabel (basename filePath))
             documents [0 ..< length documents] emptyBatch tr2 = (Inr emptyBatch, tr2)"
      using d(2) by (rule processChunks_all_blank)
    then show "processSinglePDF e st filePath = (Some collectionName, st\<lparr>trace := tr2\<rparr>)"
      unfolding br using h d(1) by (simp add: emptyBatch_def)
  qed
  have G: "createCollection e (trace st) collectionName = Inr ()
            \<and> (\<exists>documents b tr3.
                   loadData e tr1 filePath = Inr documents
                   \<and> processChunks e (basename filePath) (sourceLabel (basename filePath))
                         documents [0 ..< length documents] emptyBatch tr2 = (Inr b, tr3)
                   \<and> ids b = [])
            \<longrightarrow> fst (processSinglePDF e st filePath) = Some collectionName
                \<and> collectionsFile (snd (processSinglePDF e st filePath)) = collectionsFile st"
    unfolding br by auto
  have H: "createCollection e (trace st) collectionName = Inr ()
            \<and> (\<exists>documents b tr3.
                   loadData e tr1 filePath = Inr documents
                   \<and> processChunks e (basename filePath) (sourceLabel (basename filePath))
                         documents [0 ..< length documents] emptyBatch tr2 = (Inr b, tr3)
                   \<and> ids b \<noteq> []
                   \<and> collection_add e tr3 collectionName (ids b) (metadatas b) (docTexts b)
                         (embeddings b) = Inr ())
            \<longrightarrow> fst (processSinglePDF e st filePath) = Some collectionName"
    unfolding br by auto
  have I: "createCollection e (trace st) collectionName = Inr ()
            \<and> (\<exists>documents b tr3.
                   loadData e tr1 filePath = Inr documents
                   \<and> processChunks e (basename filePath) (sourceLabel (basename filePath))
                         documents [0 ..< length documents] emptyBatch tr2 = (Inr b, tr3)
                   \<and> ids b \<noteq> []
                   \<and> collection_add e tr3 collectionName (ids b) (metadatas b) (docTexts b)
                         (embeddings b) = Inr ()
                   \<and> (appendFileSync_throws e
                         (tr3 @ [CollectionAdd collectionName (ids b) (metadatas b) (docTexts b)
                                    (embeddings b)])
                       \<or> (\<not> appDir st
                           \<and> mkdirSync_throws e
                               (tr3 @ [CollectionAdd collectionName (ids b) (metadatas b)
                                          (docTexts b) (embeddings b)]))))
            \<longrightarrow> fst (processSinglePDF e st filePath) = Some collectionName
                \<and> collectionsFile (snd (processSinglePDF e st filePath)) = collectionsFile st"
    unfolding br by (auto simp: saveCollectionName_def Let_def)
  show ?thesis
    using A B C D D' E F G H I by (intro conjI)
qed

text \<open>Witness: the example file with each collaborator failing in turn (collection
  creation, parser, embedding, batch write), with a blank chunk only, with every call
  succeeding, and with a registry file that cannot be appended to or whose directory
  cannot be created.\<close>

theorem processSinglePDF_result_witness:
  "processSinglePDF createFailureEnv emptyState ''./doc/resume_jay.pdf''
       = (None, emptyState\<lparr>trace := [CreateCollection ''doc_resume_jay_1700000000000_k3x9ab'']\<rparr>)
   \<and> fst (processSinglePDF parseFailureEnv emptyState ''./doc/resume_jay.pdf'') = None
   \<and> fst (processSinglePDF embeddingFailureEnv emptyState ''./doc/resume_jay.pdf'') = None
   \<and> fst (processSinglePDF addFailureEnv emptyState ''./doc/resume_jay.pdf'') = None
   \<and> processSinglePDF blankChunksEnv emptyState ''./doc/resume_jay.pdf''
       = (Some ''doc_resume_jay_1700000000000_k3x9ab'',
          emptyState\<lparr>trace := [CreateCollection ''doc_resume_jay_1700000000000_k3x9ab'',
                                LoadData ''./doc/resume_jay.pdf'']\<rparr>)
   \<and> fst (processSinglePDF exampleEnv emptyState ''./doc/resume_jay.pdf'')
       = Some ''doc_resume_jay_1700000000000_k3x9ab''
   \<and> fst (processSinglePDF appendFailureEnv emptyState ''./doc/resume_jay.pdf'')
       = Some ''doc_resume_jay_1700000000000_k3x9ab''
   \<and> collectionsFile (snd (processSinglePDF appendFailureEnv emptyState ''./doc/resume_jay.pdf''))
       = collectionsFile emptyState
   \<and> fst (processSinglePDF mkdirFailureEnv emptyState ''./doc/resume_jay.pdf'')
       = Some ''doc_resume_jay_1700000000000_k3x9ab''
   \<and> collectionsFile (snd (processSinglePDF mkdirFailureEnv emptyState ''./doc/resume_jay.pdf''))
       = collectionsFile emptyState"
proof -
  have w1: "processSinglePDF createFailureEnv emptyState ''./doc/resume_jay.pdf''
       = (None, emptyState\<lparr>trace := [CreateCollection ''doc_resume_jay_1700000000000_k3x9ab'']\<rparr>)"
    using processSinglePDF_result [OF example_names_failures(1) [symmetric] refl refl]
    by (simp add: createFailureEnv_def emptyState_def)
  have w2: "fst (processSinglePDF parseFailureEnv emptyState ''./doc/resume_jay.pdf'') = None"
    using processSinglePDF_result [OF example_names(1) [symmetric] refl refl]
    by (simp add: parseFailureEnv_def)
  have w3: "fst (processSinglePDF embeddingFailureEnv emptyState ''./doc/resume_jay.pdf'') = None"
    using processSinglePDF_result [OF example_names_failures(2) [symmetric] refl refl]
    by (simp add: ingest_eval)
  have w4: "fst (processSinglePDF addFailureEnv emptyState ''./doc/resume_jay.pdf'') = None"
    using processSinglePDF_result [OF example_names_failures(3) [symmetric] refl refl]
    by (simp add: ingest_eval)
  have w5: "processSinglePDF blankChunksEnv emptyState ''./doc/resume_jay.pdf''
       = (Some ''doc_resume_jay_1700000000000_k3x9ab'',
          emptyState\<lparr>trace := [CreateCollection ''doc_resume_jay_1700000000000_k3x9ab'',
                                LoadData ''./doc/resume_jay.pdf'']\<rparr>)"
    using processSinglePDF_result [OF example_names(2) [symmetric] refl refl]
    by (simp add: blankChunksEnv_def exampleEnv_def emptyState_def chunkTextOf_def trim_def
        isWhiteSpace_def)
  have w6: "fst (processSinglePDF exampleEnv emptyState ''./doc/resume_jay.pdf'')
       = Some ''doc_resume_jay_1700000000000_k3x9ab''"
    using processSinglePDF_result [OF example_names(4) [symmetric] refl refl]
    by (simp add: ingest_eval)
  have w7: "fst (processSinglePDF appendFailureEnv emptyState ''./doc/resume_jay.pdf'')
       = Some ''doc_resume_jay_1700000000000_k3x9ab''
     \<and> collectionsFile (snd (processSinglePDF appendFailureEnv emptyState ''./doc/resume_jay.pdf''))
       = collectionsFile emptyState"
    using processSinglePDF_result [OF example_names(3) [symmetric] refl refl]
    by (simp add: ingest_eval)
  have w8: "fst (processSinglePDF mkdirFailureEnv emptyState ''./doc/resume_jay.pdf'')
       = Some ''doc_resume_jay_1700000000000_k3x9ab''
     \<and> collectionsFile (snd (processSinglePDF mkdirFailureEnv emptyState ''./doc/resume_jay.pdf''))
       = collectionsFile emptyState"
    using processSinglePDF_result [OF example_names_failures(4) [symmetric] refl refl]
    by (simp add: ingest_eval)
  show ?thesis
    using w1 w2 w3 w4 w5 w6 w7 w8 by (intro conjI) simp_all
qed

text \<open>
  Claim C5, as stated, fails: a file with zero non-empty chunks and a file whose
  record cannot be appended both return the collection id, not \<open>null\<close>, and neither is
  registered.
\<close>

theorem processSinglePDF_zero_chunks_returns_id:
  "fst (processSinglePDF blankChunksEnv emptyState ''./doc/resume_jay.pdf'')
     = Some ''doc_resume_jay_1700000000000_k3x9ab''
   \<and> collectionsFile (snd (processSinglePDF blankChunksEnv emptyState ''./doc/resume_jay.pdf''))
     = None
   \<and> fst (processSinglePDF appendFailureEnv emptyState ''./doc/resume_jay.pdf'')
     = Some ''doc_resume_jay_1700000000000_k3x9ab''
   \<and> collectionsFile (snd (processSinglePDF appendFailureEnv emptyState ''./doc/resume_jay.pdf''))
     = None"
  by (simp add: processSinglePDF_def ingest_eval)

text \<open>
  Claim C6, as the code has it. An ingestion either leaves the registry file as it was
  or appends one line, \<open>collectionId|document:fileName\<close>: the source field of the
  record is the text "document:" followed by the file name. The provenance label, the
  lower-cased file name up to its first underscore (the whole name when it has none),
  is the source field of the metadata of every chunk that the ingestion writes to the
  vector collection.
\<close>

theorem registry_record_source:
  "(collectionsFile (snd (processSinglePDF e st filePath)) = collectionsFile st
      \<or> collectionsFile (snd (processSinglePDF e st filePath))
          = Some ((case collectionsFile st of None \<Rightarrow> [] | Some content \<Rightarrow> content)
                  @ generateCollectionName e (trace st)
                      (''doc_'' @ removeExtension (basename filePath))
                  @ ''|'' @ ''document:'' @ basename filePath @ [CHR 0x0A]))
   \<and> (\<forall>c i mds d v.
         CollectionAdd c i mds d v
           \<in> set (newEvents (trace st) (trace (snd (processSinglePDF e st filePath))))
         \<longrightarrow> (\<forall>m \<in> set mds. source m = sourceLabel (basename filePath)))
   \<and> sourceLabel (basename filePath)
       = toLowerCase (takeWhile (\<lambda>c. c \<noteq> CHR ''_'') (basename filePath))"
proof (intro conjI allI impI ballI)
  show "collectionsFile (snd (processSinglePDF e st filePath)) = collectionsFile st
      \<or> collectionsFile (snd (processSinglePDF e st filePath))
          = Some ((case collectionsFile st of None \<Rightarrow> [] | Some content \<Rightarrow> content)
                  @ generateCollectionName e (trace st)
                      (''doc_'' @ removeExtension (basename filePath))
                  @ ''|'' @ ''document:'' @ basename filePath @ [CHR 0x0A])"
    unfolding processSinglePDF_def Let_def
    by (simp add: saveCollectionName_def Let_def split: sum.splits prod.splits option.splits)
next
  fix c i mds d v m
  assume ev: "CollectionAdd c i mds d v
           \<in> set (newEvents (trace st) (trace (snd (processSinglePDF e st filePath))))"
    and m: "m \<in> set mds"
  obtain docs tr2 b tr3 where run:
      "processChunks e (basename filePath) (sourceLabel (basename filePath)) docs
             [0 ..< length docs] emptyBatch tr2 = (Inr b, tr3)" "mds = metadatas b"
    using processSinglePDF_add_event [OF ev] by blast
  have "m \<in> set (metadatas b)" using m run(2) by simp
  from processChunks_metadatas [OF run(1) this]
  obtain k where "m = chunkMetadataAt (basename filePath) (sourceLabel (basename filePath))
                        docs k (chunkTextOf (docs ! k))"
    by (auto simp: emptyBatch_def)
  then show "source m = sourceLabel (basename filePath)"
    by (simp add: chunkMetadataAt_fields)
next
  show "sourceLabel (basename filePath)
       = toLowerCase (takeWhile (\<lambda>c. c \<noteq> CHR ''_'') (basename filePath))"
    by (rule sourceLabel_token)
qed

theorem registry_record_source_witness:
  "CollectionAdd ''doc_resume_jay_1700000000000_k3x9ab'' [''chunk_0'', ''chunk_1'']
      [chunkMetadataAt ''resume_jay.pdf'' ''resume'' exampleDocuments 0
         ''see alpha beta gamma delta epsilon'',
       chunkMetadataAt ''resume_jay.pdf'' ''resume'' exampleDocuments 1
         ''alpha beta gamma delta epsilon zeta'']
      [''see alpha beta gamma delta epsilon'', ''alpha beta gamma delta epsilon zeta'']
      [[2], [3]]
     \<in> set (newEvents (trace emptyState)
              (trace (snd (processSinglePDF exampleEnv emptyState ''./doc/resume_jay.pdf''))))
   \<and> source (chunkMetadataAt ''resume_jay.pdf'' ''resume'' exampleDocuments 1
               ''alpha beta gamma delta epsilon zeta'')
       = sourceLabel (basename ''./doc/resume_jay.pdf'')
   \<and> sourceLabel (basename ''./doc/resume_jay.pdf'') = ''resume''
   \<and> collectionsFile (snd (processSinglePDF exampleEnv emptyState ''./doc/resume_jay.pdf''))
       = Some (''doc_resume_jay_1700000000000_k3x9ab|document:resume_jay.pdf'' @ [CHR 0x0A])"
proof -
  let ?m0 = "chunkMetadataAt ''resume_jay.pdf'' ''resume'' exampleDocuments 0
         ''see alpha beta gamma delta epsilon''"
  let ?m1 = "chunkMetadataAt ''resume_jay.pdf'' ''resume'' exampleDocuments 1
         ''alpha beta gamma delta epsilon zeta''"
  have ev: "CollectionAdd ''doc_resume_jay_1700000000000_k3x9ab'' [''chunk_0'', ''chunk_1'']
      [?m0, ?m1]
      [''see alpha beta gamma delta epsilon'', ''alpha beta gamma delta epsilon zeta'']
      [[2], [3]]
     \<in> set (newEvents (trace emptyState)
              (trace (snd (processSinglePDF exampleEnv emptyState ''./doc/resume_jay.pdf''))))"
    by (simp add: processSinglePDF_def ingest_eval newEvents_def)
  have changed: "collectionsFile (snd (processSinglePDF exampleEnv emptyState ''./doc/resume_jay.pdf''))
       \<noteq> collectionsFile emptyState"
    by (simp add: processSinglePDF_def ingest_eval)
  note inst = registry_record_source [of exampleEnv emptyState "''./doc/resume_jay.pdf''"]
  have "\<forall>m \<in> set [?m0, ?m1]. source m = sourceLabel (basename ''./doc/resume_jay.pdf'')"
    using inst ev by blast
  then have src: "source ?m1 = sourceLabel (basename ''./doc/resume_jay.pdf'')" by simp
  have lab: "sourceLabel (basename ''./doc/resume_jay.pdf'') = ''resume''"
    using inst by (simp add: basename_def toLowerCase_def toLowerChar_def upperLetters_def
        lowerLetters_def)
  have reg: "collectionsFile (snd (processSinglePDF exampleEnv emptyState ''./doc/resume_jay.pdf''))
       = Some (''doc_resume_jay_1700000000000_k3x9ab|document:resume_jay.pdf'' @ [CHR 0x0A])"
  proof -
    have "collectionsFile (snd (processSinglePDF exampleEnv emptyState ''./doc/resume_jay.pdf''))
       = Some ((case collectionsFile emptyState of None \<Rightarrow> [] | Some content \<Rightarrow> content)
               @ generateCollectionName exampleEnv (trace emptyState)
                   (''doc_'' @ removeExtension (basename ''./doc/resume_jay.pdf''))
               @ ''|'' @ ''document:'' @ basename ''./doc/resume_jay.pdf'' @ [CHR 0x0A])"
      using inst changed by blast
    then show ?thesis
      unfolding example_names(4) by (simp add: emptyState_def basename_def)
  qed
  show ?thesis using ev src lab reg by blast
qed

text \<open>
  Claim C6, as stated, fails: after ingesting \<^verbatim>\<open>resume_jay.pdf\<close> the registry holds one
  record whose source is "document:resume_jay.pdf"; the provenance label of that
  file is "resume".
\<close>

theorem registry_source_is_document_name:
  "map source_info
       (loadCollectionNames exampleEnv
          (snd (processSinglePDF exampleEnv emptyState ''./doc/resume_jay.pdf'')))
     = [Some ''document:resume_jay.pdf'']
   \<and> sourceLabel (basename ''./doc/resume_jay.pdf'') = ''resume''"
  by (simp add: processSinglePDF_def ingest_eval loadCollectionNames_def parseLine_def)

text \<open>
  Claim C4, as the code has it. When the registry file exists and deleting it fails,
  \<^const>\<open>clearCollectionsFile\<close> catches the error and \<^const>\<open>initialize\<close> goes on: it
  processes every file found under \<^verbatim>\<open>./doc\<close> from the state it started in, and what the
  registry file held before is kept, the new records following it.
\<close>

theorem initialize_reset_failure_proceeds:
  assumes "collectionsFile st = Some old"
    and "unlinkSync_throws e (trace st)"
  shows "initialize e st
           = snd (processAllPDFs e st (getAllFiles (path_join e) ''./doc'' (docDir e)) [])
       \<and> (\<exists>new. collectionsFile (initialize e st) = Some (old @ new))"
proof -
  have "clearCollectionsFile e st = st"
    using assms by (simp add: clearCollectionsFile_def)
  then have eq: "initialize e st
           = snd (processAllPDFs e st (getAllFiles (path_join e) ''./doc'' (docDir e)) [])"
    by (simp add: initialize_def)
  show ?thesis
    using eq processAllPDFs_grows [OF assms(1)] by simp
qed

theorem initialize_reset_failure_proceeds_witness:
  "collectionsFile staleState = Some (''old|document:old.pdf'' @ [CHR 0x0A])
   \<and> unlinkSync_throws resetFailureEnv (trace staleState)
   \<and> initialize resetFailureEnv staleState
       = snd (processSinglePDF resetFailureEnv staleState ''./doc/resume_jay.pdf'')"
proof -
  have h1: "collectionsFile staleState = Some (''old|document:old.pdf'' @ [CHR 0x0A])"
    by (simp add: staleState_def)
  have h2: "unlinkSync_throws resetFailureEnv (trace staleState)"
    by (simp add: resetFailureEnv_def)
  have files: "getAllFiles (path_join resetFailureEnv) ''./doc'' (docDir resetFailureEnv)
                 = [''./doc/resume_jay.pdf'']"
    by (simp add: resetFailureEnv_def exampleEnv_def)
  show ?thesis
    using h1 h2 initialize_reset_failure_proceeds [OF h1 h2]
    by (simp add: files example_ingest)
qed

text \<open>
  Claim C4, as stated, fails: with a registry file that cannot be deleted, the example
  file is parsed and stored, and its record is appended after the stale one.
\<close>

theorem initialize_after_failed_reset:
  "unlinkSync_throws resetFailureEnv (trace staleState)
   \<and> collectionsFile (initialize resetFailureEnv staleState)
       = Some (''old|document:old.pdf'' @ [CHR 0x0A]
               @ ''doc_resume_jay_1700000000000_k3x9ab|document:resume_jay.pdf'' @ [CHR 0x0A])
   \<and> take 2 (trace (initialize resetFailureEnv staleState))
       = [CreateCollection ''doc_resume_jay_1700000000000_k3x9ab'',
          LoadData ''./doc/resume_jay.pdf'']"
proof -
  have files: "getAllFiles (path_join resetFailureEnv) ''./doc'' (docDir resetFailureEnv)
                 = [''./doc/resume_jay.pdf'']"
    by (simp add: resetFailureEnv_def exampleEnv_def)
  have clear: "clearCollectionsFile resetFailureEnv staleState = staleState"
    by (simp add: clearCollectionsFile_def resetFailureEnv_def staleState_def)
  have "initialize resetFailureEnv staleState
          = snd (processSinglePDF resetFailureEnv staleState ''./doc/resume_jay.pdf'')"
    by (simp add: initialize_def files clear example_ingest)
  then show ?thesis
    by (simp add: example_ingest) (simp add: resetFailureEnv_def)
qed

section \<open>Embedding calls of a federated search\<close>

lemma embeddingInputs_append:
  "embeddingInputs (xs @ ys) = embeddingInputs xs @ embeddingInputs ys"
  by (induction xs rule: embeddingInputs.induct) simp_all

lemma foundCollections_append:
  "foundCollections (xs @ ys) = foundCollections xs + foundCollections ys"
  by (induction xs rule: foundCollections.induct) simp_all

lemma searchCollection_trace:
  "\<exists>new. snd (searchCollection e query topK ci tr) = tr @ new \<and> searchEvents e query 1 new"
proof (cases "getCollection e tr (name ci)")
  case (Inl er)
  have "\<not> (\<forall>tr' c. getCollection e tr' c = Inr ())"
    using Inl by (metis sum.distinct(1))
  then show ?thesis
    using Inl by (simp add: searchCollection_def searchEvents_def)
next
  case (Inr u)
  then show ?thesis
    unfolding searchCollection_def createEmbedding_def searchEvents_def
    by (simp add: Let_def split: sum.splits)
qed

lemma searchLoop_trace:
  "\<exists>new. snd (searchLoop e query topK infos acc tr) = tr @ new
      \<and> searchEvents e query (length infos) new"
proof (induction infos arbitrary: acc tr)
  case Nil
  then show ?case by (simp add: searchEvents_def)
next
  case (Cons ci infos)
  obtain rs tr1 where body: "searchCollection e query topK ci tr = (rs, tr1)"
    by (cases "searchCollection e query topK ci tr")
  obtain new1 where n1: "tr1 = tr @ new1" "searchEvents e query 1 new1"
    using searchCollection_trace [of e query topK ci tr] body by auto
  obtain new2 where n2: "snd (searchLoop e query topK infos (acc @ rs) tr1) = tr1 @ new2"
      "searchEvents e query (length infos) new2"
    using Cons.IH [of "acc @ rs" tr1] by auto
  have "snd (searchLoop e query topK (ci # infos) acc tr) = tr @ (new1 @ new2)"
    using body n1 n2 by simp
  moreover have "searchEvents e query (length (ci # infos)) (new1 @ new2)"
    using n1(2) n2(2) unfolding searchEvents_def
    by (auto simp: embeddingInputs_append foundCollections_append replicate_add)
  ultimately show ?case by blast
qed

lemma searchAllCollections_trace:
  "\<exists>new. trace (snd (searchAllCollections e st query topK)) = trace st @ new
      \<and> searchEvents e query (length (loadCollectionNames e st)) new"
proof -
  obtain rs tr where loop:
      "searchLoop e query topK (loadCollectionNames e st) [] (trace st) = (rs, tr)"
    by (cases "searchLoop e query topK (loadCollectionNames e st) [] (trace st)")
  then have "trace (snd (searchAllCollections e st query topK)) = tr"
    by (simp add: searchAllCollections_def)
  then show ?thesis
    using searchLoop_trace [of e query topK "loadCollectionNames e st" "[]" "trace st"] loop
    by simp
qed

lemma searchCollection_query_event:
  assumes "CollectionQuery c v k
             \<in> set (newEvents tr (snd (searchCollection e query topK ci tr)))"
  shows "c = name ci \<and> k = topK
       \<and> embeddings_create e (tr @ [GetCollection (name ci) True]) query = Inr v"
  using assms unfolding searchCollection_def createEmbedding_def newEvents_def Let_def
  by (auto split: sum.splits if_splits)

lemmas search_eval = trim_def isWhiteSpace_def exampleEnv_def queryFailureEnv_def
  twoCollections_def loadCollectionNames_def parseLine_def
  searchAllCollections_def searchCollection_def createEmbedding_def tagResult_def
  compareDistance_def Let_def

lemma example_search_trace:
  "trace (snd (searchAllCollections exampleEnv twoCollections ''who'' 3))
     = [GetCollection ''c1'' True, CreateEmbedding ''who'', CollectionQuery ''c1'' [1] 3,
        GetCollection ''c2'' True, CreateEmbedding ''who'', CollectionQuery ''c2'' [4] 3]"
  by (simp add: search_eval)

lemma example_registry:
  "loadCollectionNames exampleEnv twoCollections
     = [\<lparr>name = ''c1'', source_info = Some ''document:a.pdf''\<rparr>,
        \<lparr>name = ''c2'', source_info = Some ''document:b.pdf''\<rparr>]"
  by (simp add: search_eval)

text \<open>
  Claim C1, as the code has it. A federated search calls the embedding collaborator
  inside the loop over the registered collections: once, with the query text, for every
  collection whose handle lookup succeeds, so at most \<open>n\<close> times for a registry of \<open>n\<close>
  collections and exactly \<open>n\<close> times when every lookup succeeds. The nearest-neighbour
  query of a collection receives the embedding that the call of its own iteration
  returned.
\<close>

theorem searchAllCollections_embedding_calls:
  "trace (snd (searchAllCollections e st query topK))
     = trace st @ newEvents (trace st) (trace (snd (searchAllCollections e st query topK)))
   \<and> embeddingInputs (newEvents (trace st) (trace (snd (searchAllCollections e st query topK))))
       = replicate
           (foundCollections
              (newEvents (trace st) (trace (snd (searchAllCollections e st query topK)))))
           query
   \<and> foundCollections (newEvents (trace st) (trace (snd (searchAllCollections e st query topK))))
       \<le> length (loadCollectionNames e st)
   \<and> ((\<forall>tr c. getCollection e tr c = Inr ())
        \<longrightarrow> length (embeddingInputs
                      (newEvents (trace st) (trace (snd (searchAllCollections e st query topK)))))
            = length (loadCollectionNames e st))
   \<and> (\<forall>c v k. CollectionQuery c v k
                  \<in> set (newEvents tr (snd (searchCollection e query topK collectionInfo' tr)))
        \<longrightarrow> c = name collectionInfo' \<and> k = topK
            \<and> embeddings_create e (tr @ [GetCollection (name collectionInfo') True]) query
                = Inr v)"
proof -
  obtain new where new: "trace (snd (searchAllCollections e st query topK)) = trace st @ new"
      "searchEvents e query (length (loadCollectionNames e st)) new"
    using searchAllCollections_trace by blast
  have ne: "newEvents (trace st) (trace (snd (searchAllCollections e st query topK))) = new"
    using new(1) by (simp add: newEvents_def)
  show ?thesis
    unfolding ne using new searchCollection_query_event [of _ _ _ tr e query topK collectionInfo']
    by (auto simp: searchEvents_def)
qed

text \<open>Witness: a registry of two collections, every lookup succeeding.\<close>

theorem searchAllCollections_embedding_calls_witness:
  "length (embeddingInputs
             (newEvents (trace twoCollections)
                (trace (snd (searchAllCollections exampleEnv twoCollections ''who'' 3)))))
     = length (loadCollectionNames exampleEnv twoCollections)
   \<and> CollectionQuery ''c1'' [1] 3
       \<in> set (newEvents []
                (snd (searchCollection exampleEnv ''who'' 3
                        \<lparr>name = ''c1'', source_info = Some ''document:a.pdf''\<rparr> [])))
   \<and> embeddings_create exampleEnv ([] @ [GetCollection ''c1'' True]) ''who'' = Inr [1]"
proof -
  have all: "\<forall>tr c. getCollection exampleEnv tr c = Inr ()"
    by (simp add: exampleEnv_def)
  have ev: "CollectionQuery ''c1'' [1] 3
       \<in> set (newEvents []
                (snd (searchCollection exampleEnv ''who'' 3
                        \<lparr>name = ''c1'', source_info = Some ''document:a.pdf''\<rparr> [])))"
    by (simp add: searchCollection_def createEmbedding_def exampleEnv_def newEvents_def)
  note inst = searchAllCollections_embedding_calls [of exampleEnv twoCollections "''who''" 3 "[]"
      "\<lparr>name = ''c1'', source_info = Some ''document:a.pdf''\<rparr>"]
  have "embeddings_create exampleEnv ([] @ [GetCollection ''c1'' True]) ''who'' = Inr [1]"
    using inst ev by (metis collectionInfo.select_convs(1))
  moreover have "length (embeddingInputs
             (newEvents (trace twoCollections)
                (trace (snd (searchAllCollections exampleEnv twoCollections ''who'' 3)))))
     = length (loadCollectionNames exampleEnv twoCollections)"
    using inst all by blast
  ultimately show ?thesis using ev by blast
qed

text \<open>
  Claim C1, as stated, fails: with two registered collections the embedding
  collaborator is called twice, and the two queries receive the two values it returned,
  which differ when the collaborator does not answer the same text alike.
\<close>

theorem searchAllCollections_embeds_per_collection:
  "length (loadCollectionNames exampleEnv twoCollections) = 2
   \<and> trace (snd (searchAllCollections exampleEnv twoCollections ''who'' 3))
       = [GetCollection ''c1'' True, CreateEmbedding ''who'', CollectionQuery ''c1'' [1] 3,
          GetCollection ''c2'' True, CreateEmbedding ''who'', CollectionQuery ''c2'' [4] 3]
   \<and> embeddingInputs (trace (snd (searchAllCollections exampleEnv twoCollections ''who'' 3)))
       = [''who'', ''who'']"
  by (simp add: example_search_trace example_registry)

section \<open>Answers of the question handler\<close>

text \<open>A collection whose lookup, embedding or query fails contributes nothing.\<close>

lemma searchCollection_skipped:
  assumes "(\<forall>tr c. isl (getCollection e tr c))
         \<or> (\<forall>tr t. isl (embeddings_create e tr t))
         \<or> (\<forall>tr c v k. isl (collection_query e tr c v k))"
  shows "fst (searchCollection e query topK ci tr) = []"
proof -
  let ?tr1 = "tr @ [GetCollection (name ci) True]"
  let ?tr2 = "?tr1 @ [CreateEmbedding query]"
  show ?thesis
  proof (cases "getCollection e tr (name ci)")
    case (Inl er)
    then show ?thesis by (simp add: searchCollection_def)
  next
    case g: (Inr u)
    show ?thesis
    proof (cases "embeddings_create e ?tr1 query")
      case (Inl er)
      then show ?thesis using g by (simp add: searchCollection_def createEmbedding_def)
    next
      case em: (Inr v)
      show ?thesis
      proof (cases "collection_query e ?tr2 (name ci) v topK")
        case (Inl er)
        then show ?thesis
          using g em by (simp add: searchCollection_def createEmbedding_def Let_def)
      next
        case (Inr hits)
        have "\<not> isl (getCollection e tr (name ci))" using g by simp
        moreover have "\<not> isl (embeddings_create e ?tr1 query)" using em by simp
        moreover have "\<not> isl (collection_query e ?tr2 (name ci) v topK)" using Inr by simp
        ultimately show ?thesis using assms by blast
      qed
    qed
  qed
qed

lemma searchLoop_skipped:
  assumes "(\<forall>tr c. isl (getCollection e tr c))
         \<or> (\<forall>tr t. isl (embeddings_create e tr t))
         \<or> (\<forall>tr c v k. isl (collection_query e tr c v k))"
  shows "fst (searchLoop e query topK infos acc tr) = acc"
proof (induction infos arbitrary: acc tr)
  case Nil
  then show ?case by simp
next
  case (Cons ci infos)
  obtain rs tr1 where body: "searchCollection e query topK ci tr = (rs, tr1)"
    by (cases "searchCollection e query topK ci tr")
  then have "rs = []" using searchCollection_skipped [OF assms, of query topK ci tr] by simp
  then show ?case using body Cons.IH [of acc tr1] by simp
qed

lemma searchAllCollections_skipped:
  assumes "(\<forall>tr c. isl (getCollection e tr c))
         \<or> (\<forall>tr t. isl (embeddings_create e tr t))
         \<or> (\<forall>tr c v k. isl (collection_query e tr c v k))"
  shows "fst (searchAllCollections e st query topK) = []"
proof -
  obtain rs tr where loop:
      "searchLoop e query topK (loadCollectionNames e st) [] (trace st) = (rs, tr)"
    by (cases "searchLoop e query topK (loadCollectionNames e st) [] (trace st)")
  then have "rs = []"
    using searchLoop_skipped [OF assms, of query topK "loadCollectionNames e st" "[]" "trace st"]
    by simp
  then show ?thesis using loop by (simp add: searchAllCollections_def)
qed

lemma searchAllCollections_unreadable:
  assumes "readFileSync_throws e (trace st)"
  shows "fst (searchAllCollections e st query topK) = []"
  using assms by (simp add: searchAllCollections_def loadCollectionNames_def split: option.splits)

lemmas answer_eval = handleUserQuestion_def generateResponse_def contextTextOf_def
  sourceBlock_def digit_char_def

lemma example_results:
  "fst (searchAllCollections queryFailureEnv twoCollections ''who'' 3)
     = [\<lparr>document = ''Jay Patel'', distance = 1 / 2, metadata = exampleMetadata,
         source_result = Some ''document:b.pdf'', collection = ''c2''\<rparr>]"
  by (simp add: search_eval)

text \<open>
  Claim C10, as the code has it. \<^const>\<open>handleUserQuestion\<close> is a total function that
  returns a string for every question and every behaviour of the collaborators: the
  fixed not-found message, and no generation call, when the search yields no results;
  otherwise the fixed apology when the generation call throws and the generator's
  output when it returns. A failure of the registry read, of the handle lookups, of the
  embedding calls or of the vector-store queries is absorbed by the search, which then
  skips the collection: when every call of one of these kinds fails, the answer is the
  not-found message, not the apology.
\<close>

theorem handleUserQuestion_cases:
  "(fst (searchAllCollections e st question 3) = []
      \<longrightarrow> handleUserQuestion e st question
            = (notFoundMessage, snd (searchAllCollections e st question 3)))
   \<and> (fst (searchAllCollections e st question 3) \<noteq> []
      \<longrightarrow> fst (handleUserQuestion e st question)
            = (case chat_create e (trace (snd (searchAllCollections e st question 3)))
                      (promptHead e
                         @ contextTextOf (fst (searchAllCollections e st question 3))
                         @ promptTail e)
                      question of
                 Inl er \<Rightarrow> errorMessage
               | Inr response \<Rightarrow> response))
   \<and> (readFileSync_throws e (trace st)
        \<or> (\<forall>tr c. isl (getCollection e tr c))
        \<or> (\<forall>tr t. isl (embeddings_create e tr t))
        \<or> (\<forall>tr c v k. isl (collection_query e tr c v k))
      \<longrightarrow> handleUserQuestion e st question
            = (notFoundMessage, snd (searchAllCollections e st question 3)))"
proof -
  obtain rs st1 where s: "searchAllCollections e st question 3 = (rs, st1)"
    by (cases "searchAllCollections e st question 3")
  have a: "rs = [] \<Longrightarrow> handleUserQuestion e st question = (notFoundMessage, st1)"
    using s by (simp add: handleUserQuestion_def)
  have b: "rs \<noteq> [] \<Longrightarrow> fst (handleUserQuestion e st question)
            = (case chat_create e (trace st1) (promptHead e @ contextTextOf rs @ promptTail e)
                      question of
                 Inl er \<Rightarrow> errorMessage
               | Inr response \<Rightarrow> response)"
    using s by (simp add: handleUserQuestion_def generateResponse_def Let_def split: sum.splits)
  have c: "readFileSync_throws e (trace st)
        \<or> (\<forall>tr c. isl (getCollection e tr c))
        \<or> (\<forall>tr t. isl (embeddings_create e tr t))
        \<or> (\<forall>tr c v k. isl (collection_query e tr c v k)) \<Longrightarrow> rs = []"
    using s searchAllCollections_unreadable [of e st question 3]
      searchAllCollections_skipped [of e st question 3] by auto
  show ?thesis
    unfolding s using a b c by simp
qed

text \<open>Witness: a search with results, an empty registry, and an embedding service that
  refuses every call.\<close>

theorem handleUserQuestion_cases_witness:
  "fst (searchAllCollections queryFailureEnv twoCollections ''who'' 3) \<noteq> []
   \<and> fst (handleUserQuestion queryFailureEnv twoCollections ''who'') = ''I am Jay.''
   \<and> fst (searchAllCollections exampleEnv emptyState ''who'' 3) = []
   \<and> fst (handleUserQuestion exampleEnv emptyState ''who'') = notFoundMessage
   \<and> (\<forall>tr t. isl (embeddings_create embeddingFailureEnv tr t))
   \<and> handleUserQuestion embeddingFailureEnv twoCollections ''who''
       = (notFoundMessage,
          snd (searchAllCollections embeddingFailureEnv twoCollections ''who'' 3))"
proof -
  have h1: "fst (searchAllCollections queryFailureEnv twoCollections ''who'' 3) \<noteq> []"
    by (simp add: example_results)
  have h2: "fst (searchAllCollections exampleEnv emptyState ''who'' 3) = []"
    by (simp add: searchAllCollections_def loadCollectionNames_def emptyState_def)
  have "fst (handleUserQuestion queryFailureEnv twoCollections ''who'') = ''I am Jay.''"
    using handleUserQuestion_cases [of queryFailureEnv twoCollections "''who''"] h1
    by (simp add: queryFailureEnv_def exampleEnv_def)
  moreover have "fst (handleUserQuestion exampleEnv emptyState ''who'') = notFoundMessage"
    using handleUserQuestion_cases [of exampleEnv emptyState "''who''"] h2 by simp
  moreover have "\<forall>tr t. isl (embeddings_create embeddingFailureEnv tr t)"
    by (simp add: embeddingFailureEnv_def)
  moreover from this
  have "handleUserQuestion embeddingFailureEnv twoCollections ''who''
          = (notFoundMessage,
             snd (searchAllCollections embeddingFailureEnv twoCollections ''who'' 3))"
    using handleUserQuestion_cases [of embeddingFailureEnv twoCollections "''who''"] by blast
  ultimately show ?thesis using h1 h2 by blast
qed

text \<open>
  Claim C10, as stated, fails: the query of collection \<open>c1\<close> throws, the collection is
  skipped, and the answer is the generator's output for the match of \<open>c2\<close>, not the
  apology.
\<close>

theorem handleUserQuestion_absorbs_query_failure:
  "collection_query queryFailureEnv
       [GetCollection ''c1'' True, CreateEmbedding ''who''] ''c1'' [1] 3
     = Inl (Error ''collection not found'')
   \<and> take 3 (trace (snd (handleUserQuestion queryFailureEnv twoCollections ''who'')))
     = [GetCollection ''c1'' True, CreateEmbedding ''who'', CollectionQuery ''c1'' [1] 3]
   \<and> fst (handleUserQuestion queryFailureEnv twoCollections ''who'') = ''I am Jay.''
   \<and> ''I am Jay.'' \<noteq> errorMessage"
  by (simp add: answer_eval search_eval errorMessage_def)

section \<open>Validation at the entry points\<close>

lemma trim_Nil: "trim [] = []"
  by (simp add: trim_def)

text \<open>A text trims to the empty string exactly when it is white space only.\<close>

lemma trim_empty_iff: "(trim s = []) = (\<forall>c \<in> set s. isWhiteSpace c)"
proof
  assume "trim s = []"
  then have "dropWhile isWhiteSpace (rev (dropWhile isWhiteSpace s)) = []"
    by (simp add: trim_def)
  then have all: "\<forall>c \<in> set (dropWhile isWhiteSpace s). isWhiteSpace c"
    by (simp add: dropWhile_eq_Nil_conv)
  have "dropWhile isWhiteSpace s = []"
  proof (cases "dropWhile isWhiteSpace s")
    case Nil
    then show ?thesis .
  next
    case (Cons c cs)
    then have "\<not> isWhiteSpace c" using hd_dropWhile [of isWhiteSpace s] by auto
    moreover have "isWhiteSpace c" using all Cons by simp
    ultimately show ?thesis by simp
  qed
  then show "\<forall>c \<in> set s. isWhiteSpace c" by (simp add: dropWhile_eq_Nil_conv)
next
  assume "\<forall>c \<in> set s. isWhiteSpace c"
  then have dw: "dropWhile isWhiteSpace s = []" by (simp add: dropWhile_eq_Nil_conv)
  show "trim s = []" unfolding trim_def dw by simp
qed

text \<open>
  Claim C8, as the code has it. The front-end route rejects a question that is
  missing, empty or only white space (what \<open>trim\<close> removes: TAB, LF, VT, FF, CR, the
  space and the no-break space) with status 400 and leaves the state as it is: no call
  reaches the API server, so there is no search and no generation. For a question with
  other characters it returns, when the transport to the API server does not throw,
  status 200 and the output of \<^const>\<open>handleUserQuestion\<close>. The API server rejects with
  status 400 a question that is missing, empty or not a string; every other string, one
  of white space only included, goes to \<^const>\<open>handleUserQuestion\<close> and is answered
  with status 200.
\<close>

theorem entry_points_validation:
  "(\<not> truthy question \<or> (\<exists>s. question = JStr s \<and> trim s = [])
      \<longrightarrow> POST e st (Inr question) = ((400, ErrorBody ''Question is required''), st))
   \<and> (trim s \<noteq> [] \<and> \<not> fetch_throws e (trace st)
      \<longrightarrow> POST e st (Inr (JStr s))
            = ((200, ResponseBody (fst (handleUserQuestion e st s))),
               snd (handleUserQuestion e st s)))
   \<and> (\<not> truthy question \<or> (\<forall>s. question \<noteq> JStr s)
      \<longrightarrow> api_ask e st question = ((400, ErrorBody ''Question is required.''), st))
   \<and> (s \<noteq> []
      \<longrightarrow> api_ask e st (JStr s)
            = ((200, AnswerBody (fst (handleUserQuestion e st s))),
               snd (handleUserQuestion e st s)))
   \<and> (trim s = []) = (\<forall>c \<in> set s. isWhiteSpace c)"
proof (intro conjI impI)
  show "(trim s = []) = (\<forall>c \<in> set s. isWhiteSpace c)"
    by (rule trim_empty_iff)
next
  assume "\<not> truthy question \<or> (\<exists>s. question = JStr s \<and> trim s = [])"
  then show "POST e st (Inr question) = ((400, ErrorBody ''Question is required''), st)"
    by (auto simp: POST_def)
next
  assume h: "trim s \<noteq> [] \<and> \<not> fetch_throws e (trace st)"
  then have ne: "s \<noteq> []" using trim_Nil by auto
  then have "api_ask e st (JStr s)
            = ((200, AnswerBody (fst (handleUserQuestion e st s))),
               snd (handleUserQuestion e st s))"
    by (simp add: api_ask_def split: prod.splits)
  then show "POST e st (Inr (JStr s))
            = ((200, ResponseBody (fst (handleUserQuestion e st s))),
               snd (handleUserQuestion e st s))"
    using h ne by (simp add: POST_def Let_def)
next
  assume "\<not> truthy question \<or> (\<forall>s. question \<noteq> JStr s)"
  then show "api_ask e st question = ((400, ErrorBody ''Question is required.''), st)"
    by (cases question) (auto simp: api_ask_def)
next
  assume "s \<noteq> []"
  then show "api_ask e st (JStr s)
            = ((200, AnswerBody (fst (handleUserQuestion e st s))),
               snd (handleUserQuestion e st s))"
    by (simp add: api_ask_def split: prod.splits)
qed

theorem entry_points_validation_witness:
  "trim ''   '' = []
   \<and> POST exampleEnv twoCollections (Inr (JStr ''   ''))
       = ((400, ErrorBody ''Question is required''), twoCollections)
   \<and> POST exampleEnv twoCollections (Inr (JStr ''who''))
       = ((200, ResponseBody (fst (handleUserQuestion exampleEnv twoCollections ''who''))),
          snd (handleUserQuestion exampleEnv twoCollections ''who''))
   \<and> api_ask exampleEnv twoCollections (JNum 5)
       = ((400, ErrorBody ''Question is required.''), twoCollections)
   \<and> api_ask exampleEnv twoCollections (JStr ''   '')
       = ((200, AnswerBody (fst (handleUserQuestion exampleEnv twoCollections ''   ''))),
          snd (handleUserQuestion exampleEnv twoCollections ''   ''))
   \<and> trim [CHR 0xA0, CHR 0x09] = []
   \<and> POST exampleEnv twoCollections (Inr (JStr [CHR 0xA0, CHR 0x09]))
       = ((400, ErrorBody ''Question is required''), twoCollections)"
proof -
  have blank: "trim ''   '' = []" by (simp add: trim_def isWhiteSpace_def)
  have nbsp: "trim [CHR 0xA0, CHR 0x09] = []" by (simp add: trim_def isWhiteSpace_def)
  have nbsp400: "POST exampleEnv twoCollections (Inr (JStr [CHR 0xA0, CHR 0x09]))
       = ((400, ErrorBody ''Question is required''), twoCollections)"
    using entry_points_validation [of "JStr [CHR 0xA0, CHR 0x09]" exampleEnv twoCollections] nbsp
    by blast
  have nonblank: "trim ''who'' \<noteq> [] \<and> \<not> fetch_throws exampleEnv (trace twoCollections)"
    by (simp add: trim_def isWhiteSpace_def exampleEnv_def)
  have "POST exampleEnv twoCollections (Inr (JStr ''   ''))
       = ((400, ErrorBody ''Question is required''), twoCollections)"
    using entry_points_validation [of "JStr ''   ''" exampleEnv twoCollections] blank by blast
  moreover have "POST exampleEnv twoCollections (Inr (JStr ''who''))
       = ((200, ResponseBody (fst (handleUserQuestion exampleEnv twoCollections ''who''))),
          snd (handleUserQuestion exampleEnv twoCollections ''who''))"
    using entry_points_validation [of _ exampleEnv twoCollections "''who''"] nonblank by blast
  moreover have "api_ask exampleEnv twoCollections (JNum 5)
       = ((400, ErrorBody ''Question is required.''), twoCollections)"
    using entry_points_validation [of "JNum 5" exampleEnv twoCollections] by blast
  moreover have "api_ask exampleEnv twoCollections (JStr ''   '')
       = ((200, AnswerBody (fst (handleUserQuestion exampleEnv twoCollections ''   ''))),
          snd (handleUserQuestion exampleEnv twoCollections ''   ''))"
    using entry_points_validation [of _ exampleEnv twoCollections "''   ''"] by simp
  ultimately show ?thesis using blank nbsp nbsp400 by blast
qed

text \<open>
  Claim C8, as stated, fails at the API server: a question of three spaces is answered
  with status 200 after a search of both collections and a generation call.
\<close>

theorem api_ask_answers_whitespace_question:
  "trim ''   '' = []
   \<and> fst (api_ask exampleEnv twoCollections (JStr ''   '')) = (200, AnswerBody ''I am Jay.'')
   \<and> take 3 (trace (snd (api_ask exampleEnv twoCollections (JStr ''   ''))))
       = [GetCollection ''c1'' True, CreateEmbedding ''   '', CollectionQuery ''c1'' [1] 3]
   \<and> length (trace (snd (api_ask exampleEnv twoCollections (JStr ''   '')))) = 7"
  by (simp add: api_ask_def answer_eval search_eval)

end
